theory Spec2Isabelle
  imports Complex_Main "HOL-Library.Word"
begin

section \<open>JavaScript values used by the capture pipeline and the renderer\<close>

text \<open>
  The source is \<^verbatim>\<open>src/App.tsx\<close>. Canvas pixel buffers are \<^verbatim>\<open>Uint8ClampedArray\<close>s, modelled as
  lists of 8-bit words. A JavaScript number is a finite value, one of the two infinities or
  NaN; finite values are kept as exact rationals. Arithmetic on them is exact in the model,
  where the source rounds each result to a double. Storing a height into the
  \<^verbatim>\<open>Float32Array\<close> of line 199 rounds it to single precision, and the model rounds there
  too (\<open>toFloat32\<close> below).
\<close>

type_synonym byte = "8 word"

datatype jsnum = Num rat | PosInfinity | NegInfinity | NaN

text \<open>
  Reading \<^verbatim>\<open>a[i]\<close> from a byte array inside an arithmetic expression: an index past the end
  reads \<^verbatim>\<open>undefined\<close>, which arithmetic turns into NaN.
\<close>

definition readByte :: "byte list \<Rightarrow> nat \<Rightarrow> jsnum" where
  "readByte a i = (if i < length a then Num (of_nat (unat (a ! i))) else NaN)"

fun jsAdd :: "jsnum \<Rightarrow> jsnum \<Rightarrow> jsnum" where
  "jsAdd NaN _ = NaN"
| "jsAdd _ NaN = NaN"
| "jsAdd (Num a) (Num b) = Num (a + b)"
| "jsAdd PosInfinity NegInfinity = NaN"
| "jsAdd NegInfinity PosInfinity = NaN"
| "jsAdd PosInfinity _ = PosInfinity"
| "jsAdd _ PosInfinity = PosInfinity"
| "jsAdd NegInfinity _ = NegInfinity"
| "jsAdd _ NegInfinity = NegInfinity"

text \<open>Division and multiplication by a positive literal (the source uses 3, 255 and 2).\<close>

fun jsDivLit :: "jsnum \<Rightarrow> rat \<Rightarrow> jsnum" where
  "jsDivLit (Num a) c = Num (a / c)"
| "jsDivLit v c = v"

fun jsMulLit :: "jsnum \<Rightarrow> rat \<Rightarrow> jsnum" where
  "jsMulLit (Num a) c = Num (a * c)"
| "jsMulLit v c = v"

text \<open>
  Storing a number into a \<^verbatim>\<open>Uint8ClampedArray\<close> (ECMAScript ToUint8Clamp): NaN becomes 0,
  the value is clamped to 0..255 and rounded to the nearest integer, a tie going to the
  even neighbour.
\<close>

definition toUint8Clamp :: "jsnum \<Rightarrow> byte" where
  "toUint8Clamp v =
     (case v of
        NaN \<Rightarrow> 0
      | PosInfinity \<Rightarrow> 255
      | NegInfinity \<Rightarrow> 0
      | Num q \<Rightarrow>
          (let c = min 255 (max 0 q); f = \<lfloor>c\<rfloor> in
           if c < of_int f + 1 / 2 then word_of_int f
           else if of_int f + 1 / 2 < c then word_of_int (f + 1)
           else if even f then word_of_int f
           else word_of_int (f + 1)))"

text \<open>The nearest integer, a tie going to the even neighbour.\<close>

definition roundHalfEven :: "rat \<Rightarrow> int" where
  "roundHalfEven q =
     (let f = \<lfloor>q\<rfloor> in
      if q < of_int f + 1 / 2 then f
      else if of_int f + 1 / 2 < q then f + 1
      else if even f then f
      else f + 1)"

text \<open>
  The spacing of a binary floating-point format around a magnitude \<open>a\<close>. The format has
  \<open>fbits\<close> fraction bits and least normal exponent \<open>emin\<close>; the exponents
  \<open>emin + n - 1, \<dots>, emin\<close> are tried from the top. Within the binade
  \<open>2 ^ e \<le> a < 2 ^ (e + 1)\<close> the spacing is \<open>2 ^ (e - fbits)\<close>; below the least normal
  number it is the subnormal spacing \<open>2 ^ (emin - fbits)\<close>.
\<close>

fun binadeQuantum :: "int \<Rightarrow> int \<Rightarrow> nat \<Rightarrow> rat \<Rightarrow> rat" where
  "binadeQuantum emin fbits 0 a = 2 powi (emin - fbits)"
| "binadeQuantum emin fbits (Suc n) a =
     (if 2 powi (emin + int n) \<le> a then 2 powi (emin + int n - fbits)
      else binadeQuantum emin fbits n a)"

text \<open>Single precision: 23 fraction bits, exponents from \<open>-126\<close> to 127.\<close>

definition f32Quantum :: "rat \<Rightarrow> rat" where
  "f32Quantum a = binadeQuantum (- 126) 23 254 a"

text \<open>
  Storing a number into a \<^verbatim>\<open>Float32Array\<close>: the nearest single-precision value, a tie
  going to the even significand, and an infinity when the rounded magnitude reaches
  \<open>2 ^ 128\<close>. For the 256 quotients \<open>k / 255\<close> that the height loop stores, the double
  that the source divides to and the exact quotient have the same nearest single-precision
  value.
\<close>

definition toFloat32 :: "jsnum \<Rightarrow> jsnum" where
  "toFloat32 v =
     (case v of
        Num q \<Rightarrow>
          (let u = f32Quantum \<bar>q\<bar>;
               r = of_int (roundHalfEven (q / u)) * u
           in if 2 ^ 128 \<le> \<bar>r\<bar> then (if 0 < q then PosInfinity else NegInfinity)
              else Num r)
      | PosInfinity \<Rightarrow> PosInfinity
      | NegInfinity \<Rightarrow> NegInfinity
      | NaN \<Rightarrow> NaN)"

section \<open>Masking and height derivation (captureImage, lines 174--202)\<close>

text \<open>The test \<^verbatim>\<open>faceMask[i] === 255\<close>; past the end of the mask it compares \<^verbatim>\<open>undefined\<close>.\<close>

definition maskIsWhite :: "byte list \<Rightarrow> nat \<Rightarrow> bool" where
  "maskIsWhite faceMask i = (i < length faceMask \<and> faceMask ! i = 255)"

definition grayAvg :: "byte list \<Rightarrow> nat \<Rightarrow> jsnum" where
  "grayAvg data i =
     jsDivLit (jsAdd (jsAdd (readByte data i) (readByte data (i + 1))) (readByte data (i + 2))) 3"

text \<open>One iteration of the masking loop; a typed-array write past the end is ignored.\<close>

definition maskPixel :: "byte list \<Rightarrow> nat \<Rightarrow> byte list \<Rightarrow> byte list" where
  "maskPixel faceMask i data =
     (if maskIsWhite faceMask i then
        (let avg = toUint8Clamp (grayAvg data i) in
         data[i := avg, i + 1 := avg, i + 2 := avg])
      else data[i := 0, i + 1 := 0, i + 2 := 0])"

function maskLoop :: "byte list \<Rightarrow> nat \<Rightarrow> byte list \<Rightarrow> byte list" where
  "maskLoop faceMask i data =
     (if i < length data then maskLoop faceMask (i + 4) (maskPixel faceMask i data) else data)"
  by pat_completeness auto
termination
  by (relation "measure (\<lambda>(faceMask, i, data). length data - i)")
    (auto simp: maskPixel_def Let_def)

declare maskLoop.simps [simp del]

text \<open>
  The height loop fills a zeroed \<^verbatim>\<open>Float32Array\<close>; \<^verbatim>\<open>i\<close> is a multiple of 4, so the
  index \<^verbatim>\<open>i / 4\<close> is the integer quotient. The quotient \<^verbatim>\<open>data[i] / 255\<close> is rounded to
  single precision by the store.
\<close>

function heightLoop :: "byte list \<Rightarrow> nat \<Rightarrow> jsnum list \<Rightarrow> jsnum list" where
  "heightLoop data i heightMapData =
     (if i < length data
      then heightLoop data (i + 4)
             (heightMapData[i div 4 := toFloat32 (jsDivLit (readByte data i) 255)])
      else heightMapData)"
  by pat_completeness auto
termination
  by (relation "measure (\<lambda>(data, i, heightMapData). length data - i)") auto

declare heightLoop.simps [simp del]

text \<open>
  Lines 180--202 as one step: the masking loop over the frame, then the height loop over
  the masked frame into a fresh array of \<open>n\<close> zeros (\<^verbatim>\<open>new Float32Array(n)\<close>).
\<close>

definition maskAndHeights :: "byte list \<Rightarrow> byte list \<Rightarrow> nat \<Rightarrow> byte list \<times> jsnum list" where
  "maskAndHeights faceMask data n =
     (let masked = maskLoop faceMask 0 data;
          heightMapData = heightLoop masked 0 (replicate n (Num 0))
      in (masked, heightMapData))"

section \<open>The head silhouette path (captureImage, lines 102--171)\<close>

text \<open>
  Coordinates are JavaScript numbers; the literals 1.4, 1.6, 0.1 and 0.2 are taken as the
  exact decimal fractions.
\<close>

record point =
  ptX :: rat
  ptY :: rat

record box =
  boxX :: rat
  boxY :: rat
  boxWidth :: rat
  boxHeight :: rat

datatype pathCmd =
    MoveTo rat rat
  | QuadraticCurveTo rat rat rat rat
  | LineTo rat rat
  | ClosePath

datatype thrown = TypeError | IndexSizeError | DetectionFailure

definition centerX :: "box \<Rightarrow> rat" where
  "centerX faceBox = boxX faceBox + boxWidth faceBox / 2"

definition centerY :: "box \<Rightarrow> rat" where
  "centerY faceBox = boxY faceBox + boxHeight faceBox / 2"

definition scaleX :: rat where
  "scaleX = 14 / 10"

definition scaleY :: rat where
  "scaleY = 16 / 10"

definition extendedWidth :: "box \<Rightarrow> rat" where
  "extendedWidth faceBox = boxWidth faceBox * scaleX"

definition extendedHeight :: "box \<Rightarrow> rat" where
  "extendedHeight faceBox = boxHeight faceBox * scaleY"

definition topY :: "box \<Rightarrow> rat" where
  "topY faceBox = boxY faceBox - (extendedHeight faceBox - boxHeight faceBox)"

text \<open>
  The jaw loop \<^verbatim>\<open>for (let i = jawLine.length - 2; i >= 0; i--)\<close>; the counter is an
  integer because it starts at \<open>-1\<close> for a one-point outline and ends at \<open>-1\<close>.
\<close>

function jawLoop :: "point list \<Rightarrow> int \<Rightarrow> pathCmd list \<Rightarrow> pathCmd list" where
  "jawLoop jawLine i path =
     (if 0 \<le> i
      then jawLoop jawLine (i - 1)
             (path @ [LineTo (ptX (jawLine ! nat i)) (ptY (jawLine ! nat i))])
      else path)"
  by pat_completeness auto
termination
  by (relation "measure (\<lambda>(jawLine, i, path). nat (i + 1))") auto

declare jawLoop.simps [simp del]

text \<open>
  The path commands issued between \<^verbatim>\<open>beginPath\<close> and \<^verbatim>\<open>fill\<close>. With an empty outline
  \<^verbatim>\<open>jawLine[jawLine.length - 1]\<close> is \<^verbatim>\<open>undefined\<close> and reading its \<^verbatim>\<open>x\<close> throws a
  TypeError, after the first three commands and before anything is filled.
\<close>

definition headPath :: "box \<Rightarrow> point list \<Rightarrow> thrown + pathCmd list" where
  "headPath faceBox jawLine =
     (let upper =
            [MoveTo (boxX faceBox - extendedWidth faceBox * (2 / 10)) (centerY faceBox),
             QuadraticCurveTo
               (boxX faceBox - extendedWidth faceBox * (1 / 10))
               (topY faceBox - extendedHeight faceBox * (1 / 10))
               (centerX faceBox)
               (topY faceBox - extendedHeight faceBox * (2 / 10)),
             QuadraticCurveTo
               (boxX faceBox + boxWidth faceBox + extendedWidth faceBox * (1 / 10))
               (topY faceBox - extendedHeight faceBox * (1 / 10))
               (boxX faceBox + boxWidth faceBox + extendedWidth faceBox * (2 / 10))
               (centerY faceBox)]
      in if jawLine = [] then Inl TypeError
         else
           (let lastPt = jawLine ! (length jawLine - 1);
                toJaw = upper @
                  [QuadraticCurveTo
                     (boxX faceBox + boxWidth faceBox + extendedWidth faceBox * (1 / 10))
                     (boxY faceBox + boxHeight faceBox + extendedHeight faceBox * (1 / 10))
                     (ptX lastPt) (ptY lastPt)];
                alongJaw = jawLoop jawLine (int (length jawLine) - 2) toJaw
            in Inr (alongJaw @
                  [QuadraticCurveTo
                     (boxX faceBox - extendedWidth faceBox * (1 / 10))
                     (boxY faceBox + boxHeight faceBox + extendedHeight faceBox * (1 / 10))
                     (boxX faceBox - extendedWidth faceBox * (2 / 10))
                     (centerY faceBox),
                   ClosePath])))"

section \<open>The capture operation (captureImage, lines 52--212)\<close>

text \<open>
  A detection as the source reads it: \<^verbatim>\<open>detections.detection.box\<close> and
  \<^verbatim>\<open>detections.landmarks\<close>. The landmark object belongs to the detection library; its
  point list and the three selections the source asks for are taken as given. The two
  eyebrow selections are fetched (lines 114--115) and never used.
\<close>

record landmarks =
  positions :: "point list"
  jawOutline :: "point list"
  leftEyeBrow :: "point list"
  rightEyeBrow :: "point list"

record detection =
  detBox :: box
  detLandmarks :: landmarks

text \<open>What \<^verbatim>\<open>await faceapi.detectSingleFace(...).withFaceLandmarks()\<close> does.\<close>

datatype detectResult = DetectThrows | NoDetection | Detected detection

text \<open>
  Everything one capture reads from outside the component: which refs and 2D contexts
  exist, the video size, the pixels the canvas holds after \<^verbatim>\<open>drawImage\<close>, the detector's
  answer, the canvas rasteriser (the RGBA buffer of the face canvas after \<^verbatim>\<open>clearRect\<close> and
  \<^verbatim>\<open>fill\<close> of a path) and the data-URL encoder.
\<close>

record captureEnv =
  videoRef :: bool
  canvasRef :: bool
  faceCanvasRef :: bool
  context2d :: bool
  faceContext2d :: bool
  videoWidth :: nat
  videoHeight :: nat
  framePixels :: "byte list"
  detectSingleFace :: detectResult
  fillMask :: "pathCmd list \<Rightarrow> byte list"
  toDataURL :: "byte list \<Rightarrow> string"

text \<open>The four \<^verbatim>\<open>useState\<close> slots of the component.\<close>

record appState =
  imageData :: "string option"
  heightMap :: "jsnum list option"
  modelsLoaded :: bool
  error :: "string option"

definition msgStillLoading :: string where
  "msgStillLoading = ''Face detection models are still loading. Please wait.''"

definition msgNoFace :: string where
  "msgNoFace = ''No face detected. Please ensure your face is visible in the camera.''"

definition msgCaptureError :: string where
  "msgCaptureError =
     ''An error occurred during image capture. Please check the console for details.''"

text \<open>\<^verbatim>\<open>getImageData(0, 0, w, h)\<close> throws an IndexSizeError when a side is zero.\<close>

definition getImageData :: "nat \<Rightarrow> nat \<Rightarrow> byte list \<Rightarrow> thrown + byte list" where
  "getImageData w h pixels = (if w = 0 \<or> h = 0 then Inl IndexSizeError else Inr pixels)"

text \<open>
  The two ways the \<^verbatim>\<open>try\<close> block ends without publishing: the early \<^verbatim>\<open>return\<close> of
  lines 94--98 and an exception that reaches the \<^verbatim>\<open>catch\<close> of line 208.
\<close>

datatype abort = ReturnNoFace | Caught thrown

definition tryBlock :: "captureEnv \<Rightarrow> abort + (jsnum list \<times> string)" where
  "tryBlock env =
     (case detectSingleFace env of
        DetectThrows \<Rightarrow> Inl (Caught DetectionFailure)
      | NoDetection \<Rightarrow> Inl ReturnNoFace
      | Detected detections \<Rightarrow>
          (case headPath (detBox detections) (jawOutline (detLandmarks detections)) of
             Inl e \<Rightarrow> Inl (Caught e)
           | Inr path \<Rightarrow>
               (case getImageData (videoWidth env) (videoHeight env) (framePixels env) of
                  Inl e \<Rightarrow> Inl (Caught e)
                | Inr data \<Rightarrow>
                    (case getImageData (videoWidth env) (videoHeight env) (fillMask env path) of
                       Inl e \<Rightarrow> Inl (Caught e)
                     | Inr faceMask \<Rightarrow>
                         (case maskAndHeights faceMask data (videoWidth env * videoHeight env) of
                            (masked, heightMapData) \<Rightarrow>
                              Inr (heightMapData, toDataURL env masked))))))"

definition captureImage :: "captureEnv \<Rightarrow> appState \<Rightarrow> appState" where
  "captureImage env st =
     (if \<not> videoRef env \<or> \<not> canvasRef env \<or> \<not> faceCanvasRef env then st
      else if \<not> modelsLoaded st then st\<lparr>error := Some msgStillLoading\<rparr>
      else if \<not> context2d env \<or> \<not> faceContext2d env then st
      else
        (case tryBlock env of
           Inl ReturnNoFace \<Rightarrow> st\<lparr>error := Some msgNoFace\<rparr>
         | Inl (Caught e) \<Rightarrow> st\<lparr>error := Some msgCaptureError\<rparr>
         | Inr (heightMapData, url) \<Rightarrow>
             st\<lparr>heightMap := Some heightMapData, imageData := Some url, error := None\<rparr>))"

section \<open>The renderer (HeightMapMesh, lines 244--266)\<close>

text \<open>
  \<^verbatim>\<open>y * width + x\<close> for vertex number \<^verbatim>\<open>i / 3\<close>. With \<^verbatim>\<open>width = 0\<close> the remainder is NaN,
  so the sum is NaN and is not an index of the array.
\<close>

definition gridIndex :: "nat \<Rightarrow> nat \<Rightarrow> nat option" where
  "gridIndex width i =
     (if width = 0 then None
      else (let x = (i div 3) mod width; y = (i div 3) div width in Some (y * width + x)))"

text \<open>
  \<^verbatim>\<open>heightMap[k]\<close>, where \<open>None\<close> is \<^verbatim>\<open>undefined\<close>. The prop \<^verbatim>\<open>heightMap\<close> of the mesh
  component is written \<open>hmap\<close> below, the name being taken by the state slot.
\<close>

definition readFloat :: "jsnum list \<Rightarrow> nat option \<Rightarrow> jsnum option" where
  "readFloat a k =
     (case k of None \<Rightarrow> None | Some j \<Rightarrow> (if j < length a then Some (a ! j) else None))"

text \<open>\<^verbatim>\<open>v || 0\<close>: \<^verbatim>\<open>undefined\<close>, NaN and zero are falsy.\<close>

definition orZero :: "jsnum option \<Rightarrow> jsnum" where
  "orZero v =
     (case v of
        None \<Rightarrow> Num 0
      | Some NaN \<Rightarrow> Num 0
      | Some (Num q) \<Rightarrow> (if q = 0 then Num 0 else Num q)
      | Some w \<Rightarrow> w)"

definition vertexDepth :: "jsnum list \<Rightarrow> nat \<Rightarrow> nat \<Rightarrow> jsnum" where
  "vertexDepth hmap width i =
     (let heightValue = orZero (readFloat hmap (gridIndex width i))
      in if heightValue = NaN then Num 0 else jsMulLit heightValue 2)"

text \<open>
  The vertex loop. The position array is a \<^verbatim>\<open>Float32Array\<close> too, but this store does not
  round: the entries of a height field are single-precision values, and twice such a value
  is again one, short of overflow.
\<close>

function updateVertices :: "jsnum list \<Rightarrow> nat \<Rightarrow> nat \<Rightarrow> jsnum list \<Rightarrow> jsnum list" where
  "updateVertices hmap width i vertices =
     (if i < length vertices
      then updateVertices hmap width (i + 3)
             (vertices[i + 2 := vertexDepth hmap width i])
      else vertices)"
  by pat_completeness auto
termination
  by (relation "measure (\<lambda>(hmap, width, i, vertices). length vertices - i)") auto

declare updateVertices.simps [simp del]

text \<open>
  The effect of lines 247--266 on the position array of the plane geometry. It does nothing
  while the geometry ref is empty (line 248); otherwise it runs the vertex loop from 0.
\<close>

definition heightMapMeshEffect :: "jsnum list \<Rightarrow> nat \<Rightarrow> jsnum list option \<Rightarrow> jsnum list option" where
  "heightMapMeshEffect hmap width geometry =
     (case geometry of
        None \<Rightarrow> None
      | Some vertices \<Rightarrow> Some (updateVertices hmap width 0 vertices))"

section \<open>Auxiliary definitions for the statements\<close>

text \<open>
  The byte the masking loop leaves in the three colour channels of the pixel that starts at
  offset \<open>i\<close>, in terms of the frame as it was before the loop.
\<close>

definition maskedByte :: "byte list \<Rightarrow> byte list \<Rightarrow> nat \<Rightarrow> byte" where
  "maskedByte faceMask data i =
     (if maskIsWhite faceMask i then toUint8Clamp (grayAvg data i) else 0)"

text \<open>The sum \<^verbatim>\<open>data[i] + data[i + 1] + data[i + 2]\<close> of a pixel that lies inside the frame.\<close>

definition rgbSum :: "byte list \<Rightarrow> nat \<Rightarrow> nat" where
  "rgbSum data i = unat (data ! i) + unat (data ! (i + 1)) + unat (data ! (i + 2))"

text \<open>
  None of the early returns of lines 54--73 is taken: the three refs are attached, the
  models are loaded and both 2D contexts exist, so the \<^verbatim>\<open>try\<close> block runs.
\<close>

definition captureReady :: "captureEnv \<Rightarrow> appState \<Rightarrow> bool" where
  "captureReady env st =
     (videoRef env \<and> canvasRef env \<and> faceCanvasRef env \<and> modelsLoaded st \<and>
      context2d env \<and> faceContext2d env)"

text \<open>The state after mounting (the initial values of the \<^verbatim>\<open>useState\<close> calls, lines 9--12).\<close>

definition initialState :: appState where
  "initialState = \<lparr>imageData = None, heightMap = None, modelsLoaded = False, error = None\<rparr>"

text \<open>
  A two-pixel frame used to instantiate the theorems: the first pixel is covered by the
  mask, the second is a boundary pixel whose mask value 254 is just below white.
\<close>

definition demoFrame :: "byte list" where
  "demoFrame = [10, 20, 31, 255, 200, 100, 50, 255]"

definition demoMask :: "byte list" where
  "demoMask = [255, 255, 255, 255, 254, 254, 254, 128]"

definition demoJaw :: "point list" where
  "demoJaw = [\<lparr>ptX = 0, ptY = 1\<rparr>, \<lparr>ptX = 1, ptY = 1\<rparr>, \<lparr>ptX = 2, ptY = 1\<rparr>]"

definition demoDetection :: detection where
  "demoDetection =
     \<lparr>detBox = \<lparr>boxX = 0, boxY = 0, boxWidth = 2, boxHeight = 1\<rparr>,
      detLandmarks = \<lparr>positions = demoJaw, jawOutline = demoJaw,
                      leftEyeBrow = [], rightEyeBrow = []\<rparr>\<rparr>"

definition demoEnv :: captureEnv where
  "demoEnv =
     \<lparr>videoRef = True, canvasRef = True, faceCanvasRef = True,
      context2d = True, faceContext2d = True,
      videoWidth = 2, videoHeight = 1, framePixels = demoFrame,
      detectSingleFace = Detected demoDetection,
      fillMask = (\<lambda>path. demoMask),
      toDataURL = (\<lambda>pixels. ''data:image/png'')\<rparr>"

definition demoState :: appState where
  "demoState =
     \<lparr>imageData = None, heightMap = None, modelsLoaded = True, error = Some msgNoFace\<rparr>"

definition loadedState :: appState where
  "loadedState = \<lparr>imageData = None, heightMap = None, modelsLoaded = True, error = None\<rparr>"

text \<open>Three more detector answers: nothing found, an exception, and a face without landmarks.\<close>

definition noFaceEnv :: captureEnv where
  "noFaceEnv = demoEnv\<lparr>detectSingleFace := NoDetection\<rparr>"

definition throwingEnv :: captureEnv where
  "throwingEnv = demoEnv\<lparr>detectSingleFace := DetectThrows\<rparr>"

definition noLandmarks :: detection where
  "noLandmarks =
     \<lparr>detBox = \<lparr>boxX = 0, boxY = 0, boxWidth = 2, boxHeight = 1\<rparr>,
      detLandmarks = \<lparr>positions = [], jawOutline = [], leftEyeBrow = [], rightEyeBrow = []\<rparr>\<rparr>"

definition noLandmarksEnv :: captureEnv where
  "noLandmarksEnv = demoEnv\<lparr>detectSingleFace := Detected noLandmarks\<rparr>"

text \<open>
  A 2 by 2 grid of vertices (x, y, z each) and a height field that is one entry short and
  holds a NaN.
\<close>

definition demoVertices :: "jsnum list" where
  "demoVertices =
     [Num (- 5), Num 5, Num 0, Num 5, Num 5, Num 0,
      Num (- 5), Num (- 5), Num 0, Num 5, Num (- 5), Num 0]"

definition demoHeights :: "jsnum list" where
  "demoHeights = [Num (1 / 2), NaN, Num (20 / 255)]"

text \<open>The face box of the 640 by 480 scenario.\<close>

definition scenarioBox :: box where
  "scenarioBox = \<lparr>boxX = 200, boxY = 100, boxWidth = 240, boxHeight = 280\<rparr>"

section \<open>The masking loop\<close>

lemma length_maskPixel: "length (maskPixel faceMask i data) = length data"
  by (simp add: maskPixel_def Let_def)

lemma length_maskLoop: "length (maskLoop faceMask i data) = length data"
proof (induction faceMask i data rule: maskLoop.induct)
  case (1 faceMask i data)
  show ?case
  proof (cases "i < length data")
    case True
    then show ?thesis
      using "1.IH" by (subst maskLoop.simps) (simp add: length_maskPixel)
  next
    case False
    then show ?thesis by (subst maskLoop.simps) simp
  qed
qed

lemma maskPixel_below: "j < i \<Longrightarrow> maskPixel faceMask i data ! j = data ! j"
  by (simp add: maskPixel_def Let_def)

lemma maskPixel_above: "i + 2 < j \<Longrightarrow> maskPixel faceMask i data ! j = data ! j"
  by (simp add: maskPixel_def Let_def)

lemma maskLoop_below: "j < i \<Longrightarrow> maskLoop faceMask i data ! j = data ! j"
proof (induction faceMask i data rule: maskLoop.induct)
  case (1 faceMask i data)
  show ?case
  proof (cases "i < length data")
    case True
    then have "maskLoop faceMask i data ! j = maskLoop faceMask (i + 4) (maskPixel faceMask i data) ! j"
      by (subst maskLoop.simps) simp
    also have "\<dots> = maskPixel faceMask i data ! j"
      using "1.IH" [OF True] "1.prems" by simp
    also have "\<dots> = data ! j"
      using "1.prems" by (rule maskPixel_below)
    finally show ?thesis .
  next
    case False
    then show ?thesis by (subst maskLoop.simps) simp
  qed
qed

lemma maskPixel_rgb:
  "c < 3 \<Longrightarrow> i + c < length data \<Longrightarrow> maskPixel faceMask i data ! (i + c) = maskedByte faceMask data i"
  by (cases "c = 0"; cases "c = 1"; cases "c = 2")
     (simp_all add: maskPixel_def maskedByte_def Let_def)

lemma readByte_cong:
  "length d' = length d \<Longrightarrow> d' ! j = d ! j \<Longrightarrow> readByte d' j = readByte d j"
  by (simp add: readByte_def)

lemma grayAvg_maskPixel:
  "i + 2 < k \<Longrightarrow> grayAvg (maskPixel faceMask i data) k = grayAvg data k"
  by (simp add: grayAvg_def readByte_def length_maskPixel maskPixel_above)

lemma maskedByte_maskPixel:
  "i + 2 < k \<Longrightarrow> maskedByte faceMask (maskPixel faceMask i data) k = maskedByte faceMask data k"
  by (simp add: maskedByte_def grayAvg_maskPixel)

lemma maskLoop_rgb:
  "c < 3 \<Longrightarrow> i + 4 * n + c < length data \<Longrightarrow>
   maskLoop faceMask i data ! (i + 4 * n + c) = maskedByte faceMask data (i + 4 * n)"
proof (induction n arbitrary: i data)
  case 0
  then have "i < length data" by simp
  then have "maskLoop faceMask i data ! (i + c) = maskLoop faceMask (i + 4) (maskPixel faceMask i data) ! (i + c)"
    by (subst maskLoop.simps) simp
  also have "\<dots> = maskPixel faceMask i data ! (i + c)"
    using 0 by (intro maskLoop_below) simp
  also have "\<dots> = maskedByte faceMask data i"
    using 0 by (intro maskPixel_rgb) simp_all
  finally show ?case by simp
next
  case (Suc n)
  let ?d = "maskPixel faceMask i data"
  from Suc.prems have lt: "i < length data" by simp
  have idx: "i + 4 * Suc n = (i + 4) + 4 * n" by simp
  have "maskLoop faceMask i data ! (i + 4 * Suc n + c) = maskLoop faceMask (i + 4) ?d ! ((i + 4) + 4 * n + c)"
    using lt by (subst maskLoop.simps) (simp add: add.assoc)
  also have "\<dots> = maskedByte faceMask ?d ((i + 4) + 4 * n)"
    using Suc.prems by (intro Suc.IH) (simp_all add: length_maskPixel)
  also have "\<dots> = maskedByte faceMask data ((i + 4) + 4 * n)"
    by (intro maskedByte_maskPixel) simp
  finally show ?case by (simp add: add.assoc)
qed

lemma maskLoop_alpha:
  "maskLoop faceMask i data ! (i + 4 * n + 3) = data ! (i + 4 * n + 3)"
proof (induction n arbitrary: i data)
  case 0
  show ?case
  proof (cases "i < length data")
    case True
    then have "maskLoop faceMask i data ! (i + 3) = maskLoop faceMask (i + 4) (maskPixel faceMask i data) ! (i + 3)"
      by (subst maskLoop.simps) simp
    also have "\<dots> = maskPixel faceMask i data ! (i + 3)"
      by (intro maskLoop_below) simp
    also have "\<dots> = data ! (i + 3)"
      by (intro maskPixel_above) simp
    finally show ?thesis by simp
  next
    case False
    then show ?thesis by (subst maskLoop.simps) simp
  qed
next
  case (Suc n)
  show ?case
  proof (cases "i < length data")
    case True
    let ?d = "maskPixel faceMask i data"
    have "maskLoop faceMask i data ! (i + 4 * Suc n + 3) = maskLoop faceMask (i + 4) ?d ! ((i + 4) + 4 * n + 3)"
      using True by (subst maskLoop.simps) (simp add: add.assoc)
    also have "\<dots> = ?d ! ((i + 4) + 4 * n + 3)"
      by (rule Suc.IH)
    also have "\<dots> = data ! ((i + 4) + 4 * n + 3)"
      by (intro maskPixel_above) simp
    finally show ?thesis by (simp add: add.assoc)
  next
    case False
    then show ?thesis by (subst maskLoop.simps) simp
  qed
qed

section \<open>The height loop\<close>

lemma length_heightLoop: "length (heightLoop data i hm) = length hm"
proof (induction data i hm rule: heightLoop.induct)
  case (1 data i hm)
  show ?case
  proof (cases "i < length data")
    case True
    then show ?thesis using "1.IH" by (subst heightLoop.simps) simp
  next
    case False
    then show ?thesis by (subst heightLoop.simps) simp
  qed
qed

lemma heightLoop_nth:
  "p < length hm \<Longrightarrow>
   heightLoop data i hm ! p =
     (if i div 4 \<le> p \<and> i + 4 * (p - i div 4) < length data
      then toFloat32 (jsDivLit (readByte data (i + 4 * (p - i div 4))) 255)
      else hm ! p)"
proof (induction data i hm rule: heightLoop.induct)
  case (1 data i hm)
  show ?case
  proof (cases "i < length data")
    case True
    let ?hm = "hm[i div 4 := toFloat32 (jsDivLit (readByte data i) 255)]"
    have step: "heightLoop data i hm = heightLoop data (i + 4) ?hm"
      using True by (subst heightLoop.simps) simp
    have ih: "heightLoop data (i + 4) ?hm ! p =
       (if (i + 4) div 4 \<le> p \<and> i + 4 + 4 * (p - (i + 4) div 4) < length data
        then toFloat32 (jsDivLit (readByte data (i + 4 + 4 * (p - (i + 4) div 4))) 255)
        else ?hm ! p)"
      using "1.IH" [OF True] "1.prems" by simp
    have d: "(i + 4) div 4 = i div 4 + 1" by simp
    show ?thesis
    proof (cases "p = i div 4")
      case True
      with \<open>i < length data\<close> "1.prems" show ?thesis
        unfolding step ih d by simp
    next
      case False
      then show ?thesis
        unfolding step ih d using "1.prems"
        by (cases "i div 4 < p") (auto simp: Suc_diff_Suc algebra_simps)
    qed
  next
    case False
    then show ?thesis by (subst heightLoop.simps) auto
  qed
qed

section \<open>Rounding of the grayscale average\<close>

lemma unat_byte_le: "unat (b :: byte) \<le> 255"
  using unsigned_less [of b, where ?'a = nat] by simp

lemma grayAvg_complete:
  "i + 2 < length data \<Longrightarrow>
   grayAvg data i = Num (of_nat (unat (data ! i) + unat (data ! (i + 1)) + unat (data ! (i + 2))) / 3)"
  by (simp add: grayAvg_def readByte_def)

lemma toUint8Clamp_unfold:
  assumes "0 \<le> q" and "q \<le> 255"
  shows "toUint8Clamp (Num q) =
     (if q < of_int \<lfloor>q\<rfloor> + 1 / 2 then word_of_int \<lfloor>q\<rfloor>
      else if of_int \<lfloor>q\<rfloor> + 1 / 2 < q then word_of_int (\<lfloor>q\<rfloor> + 1)
      else if even \<lfloor>q\<rfloor> then word_of_int \<lfloor>q\<rfloor>
      else word_of_int (\<lfloor>q\<rfloor> + 1))"
proof -
  have "min 255 (max 0 q) = q"
    using assms by (simp add: min_def max_def)
  then show ?thesis
    by (simp add: toUint8Clamp_def Let_def)
qed

lemma toUint8Clamp_third:
  assumes "s \<le> 765"
  shows "toUint8Clamp (Num (of_nat s / 3)) = of_nat ((s + 1) div 3)"
proof -
  define a r where "a = s div 3" and "r = s mod 3"
  have s: "s = 3 * a + r" and r: "r < 3"
    by (simp_all add: a_def r_def)
  define q :: rat where "q = of_nat s / 3"
  have q: "q = of_nat a + of_nat r / 3"
    by (simp add: q_def s)
  have range: "0 \<le> q" "q \<le> 255"
    using assms by (simp_all add: q_def)
  have f: "\<lfloor>q\<rfloor> = int a"
    using floor_divide_of_nat_eq [of s 3, where ?'a = rat] by (simp add: a_def q_def)
  consider "r = 0" | "r = 1" | "r = 2" using r by linarith
  then have "toUint8Clamp (Num q) = of_nat ((s + 1) div 3)"
  proof cases
    case 1
    have lt: "q < of_int (int a) + 1 / 2" by (simp add: q 1)
    have d: "(s + 1) div 3 = a" by (simp add: s 1)
    show ?thesis
      unfolding toUint8Clamp_unfold [OF range] f d using lt by simp
  next
    case 2
    have lt: "q < of_int (int a) + 1 / 2" by (simp add: q 2)
    have d: "(s + 1) div 3 = a" by (simp add: s 2)
    show ?thesis
      unfolding toUint8Clamp_unfold [OF range] f d using lt by simp
  next
    case 3
    have gt: "of_int (int a) + 1 / 2 < q" by (simp add: q 3)
    have d: "(s + 1) div 3 = a + 1" by (simp add: s 3)
    show ?thesis
      unfolding toUint8Clamp_unfold [OF range] f d using gt by simp
  qed
  then show ?thesis by (simp add: q_def)
qed

lemma round_third_close:
  "\<bar>(of_nat ((s + 1) div 3) :: rat) - of_nat s / 3\<bar> \<le> 1 / 3"
proof -
  define a r where "a = s div 3" and "r = s mod 3"
  have s: "s = 3 * a + r" and r: "r < 3"
    by (simp_all add: a_def r_def)
  have q: "(of_nat s / 3 :: rat) = of_nat a + of_nat r / 3"
    by (simp add: s)
  consider "r = 0" | "r = 1" | "r = 2" using r by linarith
  then show ?thesis
  proof cases
    case 1
    have d: "(s + 1) div 3 = a" by (simp add: s 1)
    show ?thesis unfolding d q by (simp add: 1)
  next
    case 2
    have d: "(s + 1) div 3 = a" by (simp add: s 2)
    show ?thesis unfolding d q by (simp add: 2)
  next
    case 3
    have d: "(s + 1) div 3 = a + 1" by (simp add: s 3)
    show ?thesis unfolding d q by (simp add: 3)
  qed
qed

section \<open>Rounding to single precision\<close>

lemma roundHalfEven_close: "\<bar>of_int (roundHalfEven q) - q\<bar> \<le> 1 / 2"
proof -
  have "of_int \<lfloor>q\<rfloor> \<le> q" "q < of_int \<lfloor>q\<rfloor> + 1" by linarith+
  then show ?thesis
    by (auto simp: roundHalfEven_def Let_def abs_le_iff)
qed

lemma roundHalfEven_nonneg: "0 \<le> q \<Longrightarrow> 0 \<le> roundHalfEven q"
  by (auto simp: roundHalfEven_def Let_def)

lemma roundHalfEven_le:
  assumes "q \<le> of_int N"
  shows "roundHalfEven q \<le> N"
proof -
  have fl: "\<lfloor>q\<rfloor> \<le> N" using assms by (simp add: floor_le_iff)
  show ?thesis
  proof (cases "\<lfloor>q\<rfloor> = N")
    case True
    then have "q = of_int N" using assms by (metis of_int_floor_le order_antisym)
    then show ?thesis by (simp add: roundHalfEven_def)
  next
    case False
    then have "\<lfloor>q\<rfloor> + 1 \<le> N" using fl by simp
    then show ?thesis by (auto simp: roundHalfEven_def Let_def)
  qed
qed

lemma binadeQuantum_cases:
  "binadeQuantum emin fbits n a = 2 powi (emin - fbits) \<or>
   (\<exists>m<n. 2 powi (emin + int m) \<le> a \<and> binadeQuantum emin fbits n a = 2 powi (emin + int m - fbits))"
proof (induction n)
  case 0
  show ?case by simp
next
  case (Suc n)
  show ?case
  proof (cases "2 powi (emin + int n) \<le> a")
    case True
    then show ?thesis by auto
  next
    case False
    then show ?thesis using Suc by (auto intro: less_SucI)
  qed
qed

lemma two_powi_less_one: "(2 :: rat) powi e < 1 \<Longrightarrow> e < 0"
proof (rule ccontr)
  assume lt: "(2 :: rat) powi e < 1" and "\<not> e < 0"
  then have "0 \<le> e" by simp
  then have "(1 :: rat) \<le> 2 powi e"
    by (simp add: power_int_def)
  with lt show False by simp
qed

lemma two_powi_neg: "e \<le> 0 \<Longrightarrow> (2 :: rat) powi e = 1 / 2 ^ nat (- e)"
  by (cases "e = 0") (simp_all add: power_int_def field_simps)

lemma f32Quantum_below_one:
  assumes "a < 1"
  shows "\<exists>j\<ge>24. f32Quantum a = 1 / 2 ^ j"
proof -
  consider "f32Quantum a = 2 powi (- 126 - 23)"
    | m where "2 powi (- 126 + int m) \<le> a" "f32Quantum a = 2 powi (- 126 + int m - 23)"
    using binadeQuantum_cases [of "- 126" 23 254 a] unfolding f32Quantum_def by blast
  then show ?thesis
  proof cases
    case 1
    have "f32Quantum a = 1 / 2 ^ 149"
      unfolding 1 by (simp add: two_powi_neg)
    then show ?thesis by (intro exI [of _ 149]) simp
  next
    case 2
    have "(2 :: rat) powi (- 126 + int m) < 1" using 2(1) assms by simp
    then have neg: "- 126 + int m < 0" by (rule two_powi_less_one)
    then have "f32Quantum a = 1 / 2 ^ nat (- (- 126 + int m - 23))"
      unfolding 2(2) by (intro two_powi_neg) simp
    moreover have "24 \<le> nat (- (- 126 + int m - 23))" using neg by simp
    ultimately show ?thesis by blast
  qed
qed

lemma binadeQuantum_binade:
  assumes "m < n" and "2 powi (emin + int m) \<le> a" and "a < 2 powi (emin + int m + 1)"
  shows "binadeQuantum emin fbits n a = 2 powi (emin + int m - fbits)"
  using assms(1)
proof (induction n)
  case 0
  then show ?case by simp
next
  case (Suc n)
  show ?case
  proof (cases "m = n")
    case True
    then show ?thesis using assms(2) by simp
  next
    case False
    then have mn: "m < n" using Suc.prems by simp
    then have "emin + int m + 1 \<le> emin + int n" by simp
    then have "(2 :: rat) powi (emin + int m + 1) \<le> 2 powi (emin + int n)"
      by (intro power_int_increasing) simp_all
    then have "\<not> 2 powi (emin + int n) \<le> a" using assms(3) by simp
    then show ?thesis using Suc.IH [OF mn] by simp
  qed
qed


lemma binadeQuantum_subnormal:
  assumes "a < 2 powi emin"
  shows "binadeQuantum emin fbits n a = 2 powi (emin - fbits)"
proof (induction n)
  case 0
  show ?case by simp
next
  case (Suc n)
  have "(2 :: rat) powi emin \<le> 2 powi (emin + int n)"
    by (intro power_int_increasing) simp_all
  then have "\<not> 2 powi (emin + int n) \<le> a" using assms by simp
  then show ?case using Suc by simp
qed

lemma f32Quantum_binade:
  assumes "- 126 \<le> e" and "e \<le> 127" and "2 powi e \<le> a" and "a < 2 powi (e + 1)"
  shows "f32Quantum a = 2 powi (e - 23)"
proof -
  obtain m where e: "e = - 126 + int m" and m: "m < 254"
  proof
    show "e = - 126 + int (nat (e + 126))" using assms(1) by simp
    show "nat (e + 126) < 254" using assms(1,2) by simp
  qed
  have lo: "2 powi (- 126 + int m) \<le> a"
    using assms(3) unfolding e .
  have hi: "a < 2 powi (- 126 + int m + 1)"
    using assms(4) unfolding e .
  show ?thesis
    unfolding f32Quantum_def e by (rule binadeQuantum_binade [OF m lo hi])
qed

lemma toFloat32_zero: "toFloat32 (Num 0) = Num 0"
proof -
  have "f32Quantum 0 = 2 powi (- 126 - 23)"
    unfolding f32Quantum_def by (rule binadeQuantum_subnormal) simp
  then show ?thesis
    by (simp add: toFloat32_def roundHalfEven_def)
qed

lemma toFloat32_one: "toFloat32 (Num 1) = Num 1"
proof -
  have a: "\<bar>1 :: rat\<bar> = 1" by simp
  have u: "f32Quantum 1 = 2 powi (0 - 23)"
    by (rule f32Quantum_binade) simp_all
  have r: "of_int (roundHalfEven (1 / 2 powi (0 - 23))) * 2 powi (0 - 23) = (1 :: rat)"
    by code_simp
  show ?thesis
    unfolding toFloat32_def jsnum.case Let_def a u r by simp
qed

lemma toFloat32_unit:
  assumes "0 \<le> q" and "q \<le> 1"
  shows "\<exists>r. toFloat32 (Num q) = Num r \<and> 0 \<le> r \<and> r \<le> 1 \<and> \<bar>r - q\<bar> \<le> 1 / 2 ^ 25"
proof (cases "q = 1")
  case True
  then show ?thesis using toFloat32_one by simp
next
  case False
  then have lt: "\<bar>q\<bar> < 1" using assms by simp
  obtain j where j: "24 \<le> j" and u: "f32Quantum \<bar>q\<bar> = 1 / 2 ^ j"
    using f32Quantum_below_one [OF lt] by blast
  define z where "z = roundHalfEven (q * 2 ^ j)"
  define r :: rat where "r = of_int z / 2 ^ j"
  have r: "of_int (roundHalfEven (q / f32Quantum \<bar>q\<bar>)) * f32Quantum \<bar>q\<bar> = r"
    by (simp add: u r_def z_def)
  have z0: "0 \<le> z" unfolding z_def using assms(1) by (intro roundHalfEven_nonneg) simp
  have "q * 2 ^ j \<le> of_int (2 ^ j)" using assms(2) by simp
  then have z1: "z \<le> 2 ^ j" unfolding z_def by (rule roundHalfEven_le)
  have r0: "0 \<le> r" using z0 by (simp add: r_def)
  have "of_int z \<le> (2 ^ j :: rat)" using z1 by (metis of_int_le_iff of_int_numeral of_int_power)
  then have r1: "r \<le> 1" by (simp add: r_def divide_le_eq)
  have "r - q = (of_int z - q * 2 ^ j) / 2 ^ j"
    by (simp add: r_def field_simps)
  then have "\<bar>r - q\<bar> = \<bar>of_int z - q * 2 ^ j\<bar> / 2 ^ j"
    by (simp add: abs_divide)
  also have "\<dots> \<le> (1 / 2) / 2 ^ j"
    unfolding z_def by (intro divide_right_mono roundHalfEven_close) simp
  also have "\<dots> = 1 / 2 ^ Suc j" by simp
  also have "\<dots> \<le> 1 / 2 ^ 25"
    using j by (intro divide_left_mono power_increasing) simp_all
  finally have close: "\<bar>r - q\<bar> \<le> 1 / 2 ^ 25" .
  have small: "\<not> 2 ^ 128 \<le> \<bar>r\<bar>"
  proof -
    have "\<bar>r\<bar> \<le> 1" using r0 r1 by simp
    also have "(1 :: rat) < 2 ^ 128" by simp
    finally show ?thesis by simp
  qed
  have "toFloat32 (Num q) = Num r"
    using small by (simp add: toFloat32_def Let_def r)
  then show ?thesis using r0 r1 close by blast
qed

section \<open>Masking and height derivation together\<close>

lemma fst_maskAndHeights: "fst (maskAndHeights faceMask data n) = maskLoop faceMask 0 data"
  by (simp add: maskAndHeights_def Let_def)

lemma snd_maskAndHeights:
  "snd (maskAndHeights faceMask data n) =
     heightLoop (maskLoop faceMask 0 data) 0 (replicate n (Num 0))"
  by (simp add: maskAndHeights_def Let_def)

lemma masked_rgb:
  assumes "c < 3" and "4 * p + c < length data"
  shows "maskLoop faceMask 0 data ! (4 * p + c) = maskedByte faceMask data (4 * p)"
  using maskLoop_rgb [of c 0 p data faceMask] assms by simp

lemma heights_length: "length (snd (maskAndHeights faceMask data n)) = n"
  by (simp add: snd_maskAndHeights length_heightLoop)

lemma heights_nth:
  assumes "p < n"
  shows "snd (maskAndHeights faceMask data n) ! p =
     (if 4 * p < length data
      then toFloat32 (Num (of_nat (unat (maskLoop faceMask 0 data ! (4 * p))) / 255))
      else Num 0)"
  using assms heightLoop_nth [of p "replicate n (Num 0)" "maskLoop faceMask 0 data" 0]
  by (simp add: snd_maskAndHeights length_maskLoop readByte_def)

lemma heights_nth_masked:
  assumes "p < n" and "4 * p < length data"
  shows "snd (maskAndHeights faceMask data n) ! p =
     toFloat32 (Num (of_nat (unat (maskedByte faceMask data (4 * p))) / 255))"
  using heights_nth [OF assms(1)] masked_rgb [of 0 p data faceMask] assms(2) by simp

lemma abs_diff_over_255: "\<bar>a / 255 - b / 255\<bar> = \<bar>a - b\<bar> / (255 :: rat)"
proof -
  have "a / 255 - b / 255 = (a - b) / 255"
    by (simp add: diff_divide_distrib)
  then show ?thesis
    by (simp only: abs_divide)
qed

lemma heights_entry:
  assumes "p < n"
  shows "\<exists>k\<le>255. snd (maskAndHeights faceMask data n) ! p = toFloat32 (Num (of_nat k / 255))"
proof (cases "4 * p < length data")
  case True
  have "snd (maskAndHeights faceMask data n) ! p =
      toFloat32 (Num (of_nat (unat (maskLoop faceMask 0 data ! (4 * p))) / 255))"
    using heights_nth [OF assms, of faceMask data] True by simp
  then show ?thesis
    using unat_byte_le [of "maskLoop faceMask 0 data ! (4 * p)"] by blast
next
  case False
  have "snd (maskAndHeights faceMask data n) ! p = toFloat32 (Num (of_nat 0 / 255))"
    using heights_nth [OF assms, of faceMask data] False by (simp add: toFloat32_zero)
  then show ?thesis by blast
qed

lemma toFloat32_byte_over_255:
  assumes "k \<le> 255"
  shows "\<exists>r. toFloat32 (Num (of_nat k / 255)) = Num r \<and> 0 \<le> r \<and> r \<le> 1 \<and>
           \<bar>r - of_nat k / 255\<bar> \<le> 1 / 2 ^ 25"
proof -
  have "0 \<le> (of_nat k / 255 :: rat)" by simp
  moreover have "(of_nat k / 255 :: rat) \<le> 1" using assms by simp
  ultimately show ?thesis by (rule toFloat32_unit)
qed

lemma heights_entry_unit:
  assumes "p < n"
  shows "\<exists>q. snd (maskAndHeights faceMask data n) ! p = Num q \<and> 0 \<le> q \<and> q \<le> 1"
proof -
  obtain k where k: "k \<le> 255"
    and e: "snd (maskAndHeights faceMask data n) ! p = toFloat32 (Num (of_nat k / 255))"
    using heights_entry [OF assms] by blast
  obtain r where "toFloat32 (Num (of_nat k / 255)) = Num r" and "0 \<le> r" and "r \<le> 1"
    using toFloat32_byte_over_255 [OF k] by blast
  then show ?thesis using e by auto
qed

lemma rgbSum_le: "rgbSum data i \<le> 765"
  using unat_byte_le [of "data ! i"] unat_byte_le [of "data ! (i + 1)"]
    unat_byte_le [of "data ! (i + 2)"]
  by (simp add: rgbSum_def)

lemma maskedByte_white:
  assumes "i + 2 < length data" and "maskIsWhite faceMask i"
  shows "unat (maskedByte faceMask data i) = (rgbSum data i + 1) div 3"
proof -
  have "maskedByte faceMask data i = toUint8Clamp (Num (of_nat (rgbSum data i) / 3))"
    using assms by (simp add: maskedByte_def grayAvg_complete rgbSum_def)
  also have "\<dots> = of_nat ((rgbSum data i + 1) div 3)"
    by (rule toUint8Clamp_third [OF rgbSum_le])
  finally have "unat (maskedByte faceMask data i) = unat (of_nat ((rgbSum data i + 1) div 3) :: byte)"
    by simp
  also have "\<dots> = (rgbSum data i + 1) div 3"
    using rgbSum_le [of data i] by (simp add: unat_of_nat)
  finally show ?thesis .
qed

lemma pixel_height_rounded_gray:
  assumes "4 * p + 2 < length data" and "p < n"
  shows "(\<not> maskIsWhite faceMask (4 * p) \<longrightarrow>
            snd (maskAndHeights faceMask data n) ! p = Num 0) \<and>
         (maskIsWhite faceMask (4 * p) \<longrightarrow>
            grayAvg data (4 * p) = Num (of_nat (rgbSum data (4 * p)) / 3) \<and>
            snd (maskAndHeights faceMask data n) ! p =
              toFloat32 (Num (of_nat ((rgbSum data (4 * p) + 1) div 3) / 255)) \<and>
            (\<exists>h. snd (maskAndHeights faceMask data n) ! p = Num h \<and>
               \<bar>h - of_nat ((rgbSum data (4 * p) + 1) div 3) / 255\<bar> \<le> 1 / 2 ^ 25 \<and>
               \<bar>h - (of_nat (rgbSum data (4 * p)) / 3) / 255\<bar> \<le> 1 / 765 + 1 / 2 ^ 25))"
proof -
  let ?k = "(rgbSum data (4 * p) + 1) div 3"
  let ?lum = "of_nat (rgbSum data (4 * p)) / 3 :: rat"
  have lt: "4 * p < length data" using assms(1) by simp
  have h: "snd (maskAndHeights faceMask data n) ! p =
      toFloat32 (Num (of_nat (unat (maskedByte faceMask data (4 * p))) / 255))"
    by (rule heights_nth_masked [OF assms(2) lt])
  have black: "\<not> maskIsWhite faceMask (4 * p) \<Longrightarrow> snd (maskAndHeights faceMask data n) ! p = Num 0"
    unfolding h by (simp add: maskedByte_def toFloat32_zero)
  have avg: "grayAvg data (4 * p) = Num ?lum"
    using assms(1) by (simp add: grayAvg_complete rgbSum_def)
  have gray: "maskIsWhite faceMask (4 * p) \<Longrightarrow>
      snd (maskAndHeights faceMask data n) ! p = toFloat32 (Num (of_nat ?k / 255))"
    unfolding h using maskedByte_white [OF assms(1)] by simp
  have "\<bar>of_nat ?k / 255 - ?lum / 255\<bar> = \<bar>of_nat ?k - ?lum\<bar> / 255"
    by (rule abs_diff_over_255)
  also have "\<dots> \<le> (1 / 3) / 255"
    by (rule divide_right_mono [OF round_third_close]) simp
  finally have close: "\<bar>of_nat ?k / 255 - ?lum / 255\<bar> \<le> 1 / 765"
    by simp
  have k: "?k \<le> 255"
    using rgbSum_le [of data "4 * p"] by simp
  obtain r where r: "toFloat32 (Num (of_nat ?k / 255)) = Num r"
    and near: "\<bar>r - of_nat ?k / 255\<bar> \<le> 1 / 2 ^ 25"
    using toFloat32_byte_over_255 [OF k] by blast
  have "\<bar>r - ?lum / 255\<bar> \<le> \<bar>r - of_nat ?k / 255\<bar> + \<bar>of_nat ?k / 255 - ?lum / 255\<bar>"
    by simp
  also have "\<dots> \<le> 1 / 2 ^ 25 + 1 / 765"
    by (rule add_mono [OF near close])
  finally have far: "\<bar>r - ?lum / 255\<bar> \<le> 1 / 765 + 1 / 2 ^ 25"
    by simp
  have bounds: "maskIsWhite faceMask (4 * p) \<Longrightarrow>
      \<exists>h. snd (maskAndHeights faceMask data n) ! p = Num h \<and>
        \<bar>h - of_nat ?k / 255\<bar> \<le> 1 / 2 ^ 25 \<and>
        \<bar>h - ?lum / 255\<bar> \<le> 1 / 765 + 1 / 2 ^ 25"
    using gray r near far by auto
  show ?thesis
    using black avg gray bounds by blast
qed

section \<open>Shape of the silhouette path\<close>

lemma jawLoop_eq:
  "i < int (length jawLine) \<Longrightarrow>
   jawLoop jawLine i path =
     path @ map (\<lambda>pt. LineTo (ptX pt) (ptY pt)) (rev (take (nat (i + 1)) jawLine))"
proof (induction jawLine i path rule: jawLoop.induct)
  case (1 jawLine i path)
  show ?case
  proof (cases "0 \<le> i")
    case True
    let ?cmd = "LineTo (ptX (jawLine ! nat i)) (ptY (jawLine ! nat i))"
    have lt: "nat i < length jawLine" using True "1.prems" by simp
    have "jawLoop jawLine i path = jawLoop jawLine (i - 1) (path @ [?cmd])"
      using True by (subst jawLoop.simps) simp
    also have "\<dots> = (path @ [?cmd]) @
        map (\<lambda>pt. LineTo (ptX pt) (ptY pt)) (rev (take (nat (i - 1 + 1)) jawLine))"
      using "1.IH" [OF True] "1.prems" by simp
    also have "\<dots> = path @
        map (\<lambda>pt. LineTo (ptX pt) (ptY pt)) (rev (take (Suc (nat i)) jawLine))"
      using lt by (simp add: take_Suc_conv_app_nth)
    also have "Suc (nat i) = nat (i + 1)"
      using True by simp
    finally show ?thesis .
  next
    case False
    then show ?thesis by (subst jawLoop.simps) simp
  qed
qed

text \<open>
  For a non-empty outline the path is: the start point, the two upper arcs, the arc down
  to the last jaw point, straight lines through the remaining jaw points in reverse
  order, the arc back to the start, and the closing command.
\<close>

lemma headPath_shape:
  assumes "jawLine \<noteq> []"
  shows "headPath faceBox jawLine =
     Inr ([MoveTo (boxX faceBox - extendedWidth faceBox * (2 / 10)) (centerY faceBox),
           QuadraticCurveTo
             (boxX faceBox - extendedWidth faceBox * (1 / 10))
             (topY faceBox - extendedHeight faceBox * (1 / 10))
             (centerX faceBox)
             (topY faceBox - extendedHeight faceBox * (2 / 10)),
           QuadraticCurveTo
             (boxX faceBox + boxWidth faceBox + extendedWidth faceBox * (1 / 10))
             (topY faceBox - extendedHeight faceBox * (1 / 10))
             (boxX faceBox + boxWidth faceBox + extendedWidth faceBox * (2 / 10))
             (centerY faceBox),
           QuadraticCurveTo
             (boxX faceBox + boxWidth faceBox + extendedWidth faceBox * (1 / 10))
             (boxY faceBox + boxHeight faceBox + extendedHeight faceBox * (1 / 10))
             (ptX (last jawLine)) (ptY (last jawLine))]
          @ map (\<lambda>pt. LineTo (ptX pt) (ptY pt)) (rev (butlast jawLine))
          @ [QuadraticCurveTo
               (boxX faceBox - extendedWidth faceBox * (1 / 10))
               (boxY faceBox + boxHeight faceBox + extendedHeight faceBox * (1 / 10))
               (boxX faceBox - extendedWidth faceBox * (2 / 10))
               (centerY faceBox),
             ClosePath])"
proof -
  have idx: "int (length jawLine) - 2 < int (length jawLine)" by simp
  have n: "nat (int (length jawLine) - 2 + 1) = length jawLine - 1"
    using assms by (cases jawLine) simp_all
  have l: "jawLine ! (length jawLine - 1) = last jawLine"
    using assms by (simp add: last_conv_nth)
  have lines: "jawLoop jawLine (int (length jawLine) - 2) path =
      path @ map (\<lambda>pt. LineTo (ptX pt) (ptY pt)) (rev (butlast jawLine))" for path
    unfolding jawLoop_eq [OF idx] n by (simp add: butlast_conv_take)
  show ?thesis
    unfolding headPath_def Let_def lines l using assms by simp
qed

text \<open>
  The numbers of the 640 by 480 scenario: the enlarged width and height are 1.4 and 1.6
  times the sides of the face box, and the top of the upper arcs, at
  \<open>topY - 0.2 * extendedHeight\<close>, lies above (has a smaller y than)
  \<open>faceBox.y - 0.2 * extendedHeight\<close>. The start and end points of the upper arcs lie to
  the left and to the right of the box.
\<close>

lemma scenario_envelope:
  "extendedWidth scenarioBox = 14 / 10 * boxWidth scenarioBox"
  "extendedHeight scenarioBox = 16 / 10 * boxHeight scenarioBox"
  "extendedWidth scenarioBox = 336"
  "extendedHeight scenarioBox = 448"
  "topY scenarioBox = - 68"
  "topY scenarioBox - extendedHeight scenarioBox * (2 / 10) = - 788 / 5"
  "topY scenarioBox - extendedHeight scenarioBox * (2 / 10) <
     boxY scenarioBox - 2 / 10 * extendedHeight scenarioBox"
  "boxX scenarioBox - extendedWidth scenarioBox * (2 / 10) < boxX scenarioBox"
  "boxX scenarioBox + boxWidth scenarioBox <
     boxX scenarioBox + boxWidth scenarioBox + extendedWidth scenarioBox * (2 / 10)"
  by (simp_all add: scenarioBox_def extendedWidth_def extendedHeight_def topY_def
      scaleX_def scaleY_def)

section \<open>Running the try block\<close>

lemma headPath_empty: "headPath faceBox [] = Inl TypeError"
  by (simp add: headPath_def)

lemma headPath_nonempty: "jawLine \<noteq> [] \<Longrightarrow> \<exists>path. headPath faceBox jawLine = Inr path"
  by (simp add: headPath_def Let_def)

lemma tryBlock_published:
  assumes "detectSingleFace env = Detected d"
    and "headPath (detBox d) (jawOutline (detLandmarks d)) = Inr path"
    and "0 < videoWidth env" and "0 < videoHeight env"
  shows "tryBlock env =
     Inr (snd (maskAndHeights (fillMask env path) (framePixels env)
                 (videoWidth env * videoHeight env)),
          toDataURL env (fst (maskAndHeights (fillMask env path) (framePixels env)
                 (videoWidth env * videoHeight env))))"
  using assms by (simp add: tryBlock_def getImageData_def split: prod.splits)

lemma captureImage_published:
  assumes "captureReady env st"
    and "detectSingleFace env = Detected d"
    and "headPath (detBox d) (jawOutline (detLandmarks d)) = Inr path"
    and "0 < videoWidth env" and "0 < videoHeight env"
  shows "captureImage env st =
     st\<lparr>heightMap := Some (snd (maskAndHeights (fillMask env path) (framePixels env)
                 (videoWidth env * videoHeight env))),
        imageData := Some (toDataURL env (fst (maskAndHeights (fillMask env path) (framePixels env)
                 (videoWidth env * videoHeight env)))),
        error := None\<rparr>"
  using assms(1) tryBlock_published [OF assms(2-5)]
  by (simp add: captureImage_def captureReady_def)

lemma demo_ready: "captureReady demoEnv demoState"
  by (simp add: captureReady_def demoEnv_def demoState_def)

lemma demo_detected: "detectSingleFace demoEnv = Detected demoDetection"
  by (simp add: demoEnv_def)

lemma demo_jaw: "jawOutline (detLandmarks demoDetection) \<noteq> []"
  by (simp add: demoDetection_def demoJaw_def)

lemma demo_size: "0 < videoWidth demoEnv" "0 < videoHeight demoEnv"
  by (simp_all add: demoEnv_def)

lemma demo_valid: "length (framePixels demoEnv) = 4 * (videoWidth demoEnv * videoHeight demoEnv)"
  by (simp add: demoEnv_def demoFrame_def)

lemma demo_float: "toFloat32 (Num (of_nat 20 / 255)) = Num (10526881 / 134217728)"
proof -
  have a: "\<bar>of_nat 20 / 255 :: rat\<bar> = of_nat 20 / 255" by simp
  have u: "f32Quantum (of_nat 20 / 255) = 2 powi (- 4 - 23)"
    by (rule f32Quantum_binade) (simp_all add: power_int_minus)
  have r: "of_int (roundHalfEven (of_nat 20 / 255 / 2 powi (- 4 - 23))) * 2 powi (- 4 - 23)
      = (10526881 / 134217728 :: rat)"
    by code_simp
  have small: "\<not> (2 :: rat) ^ 128 \<le> \<bar>10526881 / 134217728\<bar>"
    by simp
  show ?thesis
    unfolding toFloat32_def jsnum.case Let_def a u r using small by simp
qed

lemma demo_masked: "maskLoop demoMask 0 demoFrame = [20, 20, 20, 255, 0, 0, 0, 255]"
  by code_simp

lemma pair_from_nth:
  assumes "length xs = 2"
  shows "xs = [xs ! 0, xs ! 1]"
proof (rule nth_equalityI)
  show "length xs = length [xs ! 0, xs ! 1]" using assms by simp
next
  fix i assume "i < length xs"
  then have "i = 0 \<or> i = 1" using assms by auto
  then show "xs ! i = [xs ! 0, xs ! 1] ! i" by auto
qed

lemma demo_heights:
  "snd (maskAndHeights demoMask demoFrame 2) = [Num (10526881 / 134217728), Num 0]"
proof -
  let ?hm = "snd (maskAndHeights demoMask demoFrame 2)"
  have len: "length ?hm = 2" by (rule heights_length)
  have c0: "4 * 0 < length demoFrame" and c1: "4 * 1 < length demoFrame"
    by (simp_all add: demoFrame_def)
  have b0: "of_nat (unat (maskLoop demoMask 0 demoFrame ! (4 * 0))) = (of_nat 20 :: rat)"
    by (simp add: demo_masked)
  have b1: "of_nat (unat (maskLoop demoMask 0 demoFrame ! (4 * 1))) / 255 = (0 :: rat)"
    by (simp add: demo_masked)
  have "?hm ! 0 = toFloat32 (Num (of_nat (unat (maskLoop demoMask 0 demoFrame ! (4 * 0))) / 255))"
    using heights_nth [of 0 2 demoMask demoFrame] c0 by simp
  then have e0: "?hm ! 0 = Num (10526881 / 134217728)"
    unfolding b0 demo_float .
  have "?hm ! 1 = toFloat32 (Num (of_nat (unat (maskLoop demoMask 0 demoFrame ! (4 * 1))) / 255))"
    using heights_nth [of 1 2 demoMask demoFrame] c1 by simp
  then have e1: "?hm ! 1 = Num 0"
    unfolding b1 toFloat32_zero .
  show ?thesis
    using pair_from_nth [OF len] e0 e1 by simp
qed

lemma demo_capture:
  "captureImage demoEnv demoState =
     demoState\<lparr>heightMap := Some [Num (10526881 / 134217728), Num 0],
               imageData := Some ''data:image/png'', error := None\<rparr>"
proof -
  obtain path where
    path: "headPath (detBox demoDetection) (jawOutline (detLandmarks demoDetection)) = Inr path"
    using headPath_nonempty [OF demo_jaw] by blast
  have env: "fillMask demoEnv path = demoMask" "framePixels demoEnv = demoFrame"
    "videoWidth demoEnv * videoHeight demoEnv = 2"
    "toDataURL demoEnv = (\<lambda>pixels. ''data:image/png'')"
    by (simp_all add: demoEnv_def)
  show ?thesis
    using captureImage_published [OF demo_ready demo_detected path demo_size]
    by (simp add: env demo_heights)
qed

lemma demo_byte: "(rgbSum demoFrame (4 * 0) + 1) div 3 = 20"
  by (simp add: rgbSum_def demoFrame_def)

lemma captureImage_ready:
  assumes "captureReady env st"
  shows "captureImage env st =
     (case tryBlock env of
        Inl ReturnNoFace \<Rightarrow> st\<lparr>error := Some msgNoFace\<rparr>
      | Inl (Caught e) \<Rightarrow> st\<lparr>error := Some msgCaptureError\<rparr>
      | Inr (heightMapData, url) \<Rightarrow>
          st\<lparr>heightMap := Some heightMapData, imageData := Some url, error := None\<rparr>)"
  using assms by (simp add: captureImage_def captureReady_def)

lemma tryBlock_no_detection:
  "detectSingleFace env = NoDetection \<Longrightarrow> tryBlock env = Inl ReturnNoFace"
  by (simp add: tryBlock_def)

lemma tryBlock_detection_throws:
  "detectSingleFace env = DetectThrows \<Longrightarrow> tryBlock env = Inl (Caught DetectionFailure)"
  by (simp add: tryBlock_def)

lemma tryBlock_empty_jaw:
  "detectSingleFace env = Detected d \<Longrightarrow> jawOutline (detLandmarks d) = [] \<Longrightarrow>
   tryBlock env = Inl (Caught TypeError)"
  by (simp add: tryBlock_def headPath_empty)

lemma messages_differ: "msgCaptureError \<noteq> msgNoFace"
  by (simp add: msgCaptureError_def msgNoFace_def)

lemma demo_envs_ready:
  "captureReady noFaceEnv loadedState"
  "captureReady throwingEnv loadedState"
  "captureReady noLandmarksEnv loadedState"
  by (simp_all add: captureReady_def noFaceEnv_def throwingEnv_def noLandmarksEnv_def
      demoEnv_def loadedState_def)

section \<open>The vertex loop\<close>

lemma length_updateVertices:
  "length (updateVertices hmap width i vertices) = length vertices"
proof (induction hmap width i vertices rule: updateVertices.induct)
  case (1 hmap width i vertices)
  show ?case
  proof (cases "i < length vertices")
    case True
    then show ?thesis using "1.IH" by (subst updateVertices.simps) simp
  next
    case False
    then show ?thesis by (subst updateVertices.simps) simp
  qed
qed

lemma updateVertices_below:
  "j < i + 2 \<Longrightarrow> updateVertices hmap width i vertices ! j = vertices ! j"
proof (induction hmap width i vertices rule: updateVertices.induct)
  case (1 hmap width i vertices)
  show ?case
  proof (cases "i < length vertices")
    case True
    let ?vs = "vertices[i + 2 := vertexDepth hmap width i]"
    have "updateVertices hmap width i vertices ! j = updateVertices hmap width (i + 3) ?vs ! j"
      using True by (subst updateVertices.simps) simp
    also have "\<dots> = ?vs ! j"
      using "1.IH" [OF True] "1.prems" by simp
    also have "\<dots> = vertices ! j"
      using "1.prems" by simp
    finally show ?thesis .
  next
    case False
    then show ?thesis by (subst updateVertices.simps) simp
  qed
qed

lemma updateVertices_z:
  "i + 3 * n + 2 < length vertices \<Longrightarrow>
   updateVertices hmap width i vertices ! (i + 3 * n + 2) = vertexDepth hmap width (i + 3 * n)"
proof (induction n arbitrary: i vertices)
  case 0
  let ?vs = "vertices[i + 2 := vertexDepth hmap width i]"
  from 0 have lt: "i < length vertices" by simp
  have "updateVertices hmap width i vertices ! (i + 2) =
      updateVertices hmap width (i + 3) ?vs ! (i + 2)"
    using lt by (subst updateVertices.simps) simp
  also have "\<dots> = ?vs ! (i + 2)"
    by (intro updateVertices_below) simp
  also have "\<dots> = vertexDepth hmap width i"
    using 0 by simp
  finally show ?case by simp
next
  case (Suc n)
  let ?vs = "vertices[i + 2 := vertexDepth hmap width i]"
  from Suc.prems have lt: "i < length vertices" by simp
  have "updateVertices hmap width i vertices ! (i + 3 * Suc n + 2) =
      updateVertices hmap width (i + 3) ?vs ! ((i + 3) + 3 * n + 2)"
    using lt by (subst updateVertices.simps) (simp add: add.assoc)
  also have "\<dots> = vertexDepth hmap width ((i + 3) + 3 * n)"
    using Suc.prems by (intro Suc.IH) simp
  finally show ?case by (simp add: add.assoc)
qed

lemma gridIndex_row_col:
  assumes "col < width"
  shows "gridIndex width (3 * (row * width + col)) = Some (row * width + col)"
proof -
  have "width \<noteq> 0" using assms by simp
  moreover have "(3 * (row * width + col)) div 3 = row * width + col" by simp
  moreover have "(row * width + col) div width * width + (row * width + col) mod width =
      row * width + col"
    by (rule div_mult_mod_eq)
  ultimately show ?thesis
    by (simp add: gridIndex_def Let_def)
qed

lemma vertexDepth_not_NaN: "vertexDepth hmap width i \<noteq> NaN"
proof -
  have "orZero v \<noteq> NaN" for v
    by (cases v) (auto simp: orZero_def split: jsnum.splits)
  then show ?thesis
    by (cases "orZero (readFloat hmap (gridIndex width i))")
       (simp_all add: vertexDepth_def Let_def)
qed

lemma vertexDepth_row_col:
  assumes "col < width"
  shows "vertexDepth hmap width (3 * (row * width + col)) =
     (if row * width + col < length hmap \<and> hmap ! (row * width + col) \<noteq> NaN
      then jsMulLit (hmap ! (row * width + col)) 2
      else Num 0)"
proof (cases "row * width + col < length hmap")
  case True
  then have r: "readFloat hmap (gridIndex width (3 * (row * width + col))) =
      Some (hmap ! (row * width + col))"
    unfolding gridIndex_row_col [OF assms] readFloat_def by simp
  show ?thesis
    unfolding vertexDepth_def r using True
    by (cases "hmap ! (row * width + col)") (simp_all add: orZero_def)
next
  case False
  then have r: "readFloat hmap (gridIndex width (3 * (row * width + col))) = None"
    unfolding gridIndex_row_col [OF assms] readFloat_def by simp
  show ?thesis
    unfolding vertexDepth_def r using False by (simp add: orZero_def)
qed

section \<open>Classification of pixels by the mask\<close>

text \<open>
  C9. A pixel is treated as in-head exactly when the red channel of the rasterised mask at
  that pixel is 255. A pixel whose mask red value is below 255 (a partially covered
  boundary pixel, say) is background: its three colour channels are set to 0 and its
  height is 0. An in-head pixel gets the rounded grayscale average in all three channels.
  The pixel \<open>p\<close> starts at byte offset \<open>4 * p\<close> of the frame and of the mask.
\<close>

theorem in_head_iff_mask_red_255:
  assumes "4 * p + 2 < length data" and "4 * p < length faceMask" and "p < n"
  shows "(maskIsWhite faceMask (4 * p) \<longleftrightarrow> faceMask ! (4 * p) = 255) \<and>
         (maskIsWhite faceMask (4 * p) \<longleftrightarrow> \<not> unat (faceMask ! (4 * p)) < 255) \<and>
         (if faceMask ! (4 * p) = 255
          then fst (maskAndHeights faceMask data n) ! (4 * p) = toUint8Clamp (grayAvg data (4 * p)) \<and>
               fst (maskAndHeights faceMask data n) ! (4 * p + 1) = toUint8Clamp (grayAvg data (4 * p)) \<and>
               fst (maskAndHeights faceMask data n) ! (4 * p + 2) = toUint8Clamp (grayAvg data (4 * p))
          else fst (maskAndHeights faceMask data n) ! (4 * p) = 0 \<and>
               fst (maskAndHeights faceMask data n) ! (4 * p + 1) = 0 \<and>
               fst (maskAndHeights faceMask data n) ! (4 * p + 2) = 0 \<and>
               snd (maskAndHeights faceMask data n) ! p = Num 0)"
proof -
  have white: "maskIsWhite faceMask (4 * p) \<longleftrightarrow> faceMask ! (4 * p) = 255"
    using assms(2) by (simp add: maskIsWhite_def)
  have "unat (faceMask ! (4 * p)) < 255 \<longleftrightarrow> faceMask ! (4 * p) \<noteq> 255"
  proof
    assume "unat (faceMask ! (4 * p)) < 255"
    then show "faceMask ! (4 * p) \<noteq> 255" by auto
  next
    assume ne: "faceMask ! (4 * p) \<noteq> 255"
    have "unat (faceMask ! (4 * p)) \<noteq> unat (255 :: byte)"
      using ne by (simp only: word_unat_eq_iff [symmetric] not_False_eq_True)
    then show "unat (faceMask ! (4 * p)) < 255"
      using unat_byte_le [of "faceMask ! (4 * p)"] by simp
  qed
  then have below: "maskIsWhite faceMask (4 * p) \<longleftrightarrow> \<not> unat (faceMask ! (4 * p)) < 255"
    using white by simp
  have r: "fst (maskAndHeights faceMask data n) ! (4 * p) = maskedByte faceMask data (4 * p)"
    using masked_rgb [of 0 p data faceMask] assms(1) by (simp add: fst_maskAndHeights)
  have g: "fst (maskAndHeights faceMask data n) ! (4 * p + 1) = maskedByte faceMask data (4 * p)"
    using masked_rgb [of 1 p data faceMask] assms(1) by (simp add: fst_maskAndHeights)
  have b: "fst (maskAndHeights faceMask data n) ! (4 * p + 2) = maskedByte faceMask data (4 * p)"
    using masked_rgb [of 2 p data faceMask] assms(1) by (simp add: fst_maskAndHeights)
  have h: "snd (maskAndHeights faceMask data n) ! p =
      toFloat32 (Num (of_nat (unat (maskedByte faceMask data (4 * p))) / 255))"
    using assms by (intro heights_nth_masked) simp_all
  show ?thesis
    unfolding r g b h using white below by (simp add: maskedByte_def toFloat32_zero)
qed

theorem in_head_iff_mask_red_255_witness:
  "maskIsWhite demoMask (4 * 0) \<and>
   fst (maskAndHeights demoMask demoFrame 2) ! (4 * 0) = 20 \<and>
   fst (maskAndHeights demoMask demoFrame 2) ! (4 * 0 + 1) = 20 \<and>
   fst (maskAndHeights demoMask demoFrame 2) ! (4 * 0 + 2) = 20 \<and>
   unat (demoMask ! (4 * 1)) < 255 \<and>
   \<not> maskIsWhite demoMask (4 * 1) \<and>
   fst (maskAndHeights demoMask demoFrame 2) ! (4 * 1) = 0 \<and>
   fst (maskAndHeights demoMask demoFrame 2) ! (4 * 1 + 1) = 0 \<and>
   fst (maskAndHeights demoMask demoFrame 2) ! (4 * 1 + 2) = 0 \<and>
   snd (maskAndHeights demoMask demoFrame 2) ! 1 = Num 0"
proof -
  have len0: "4 * 0 + 2 < length demoFrame" and len1: "4 * 1 + 2 < length demoFrame"
    by (simp_all add: demoFrame_def)
  have m0: "4 * 0 < length demoMask" and m1: "4 * 1 < length demoMask"
    by (simp_all add: demoMask_def)
  have white: "demoMask ! (4 * 0) = 255" and gray: "demoMask ! (4 * 1) \<noteq> 255"
    by (simp_all add: demoMask_def)
  have avg: "toUint8Clamp (grayAvg demoFrame (4 * 0)) = 20"
    by code_simp
  have first: "(0::nat) < 2" and second: "(1::nat) < 2"
    by simp_all
  show ?thesis
    using in_head_iff_mask_red_255 [OF len0 m0 first] in_head_iff_mask_red_255 [OF len1 m1 second]
      white gray avg
    by auto
qed

section \<open>Heights of masked pixels\<close>

text \<open>
  C1, as the code has it. For every captured frame, after masking and height derivation,
  every pixel outside the mask has height 0. A pixel inside the mask has height \<open>k / 255\<close>
  within floating rounding, where \<open>k\<close> is the average \<open>(R + G + B) / 3\<close> rounded to the
  nearest integer when it is stored into the 8-bit channel: the height is the
  single-precision value nearest to \<open>k / 255\<close>, at most \<open>1 / 2 ^ 25\<close> away from it, and so
  at most \<open>1 / 765 + 1 / 2 ^ 25\<close> away from the unrounded average divided by 255.
\<close>

theorem height_is_rounded_gray_over_255:
  assumes "captureReady env st"
    and "detectSingleFace env = Detected d"
    and "jawOutline (detLandmarks d) \<noteq> []"
    and "0 < videoWidth env" and "0 < videoHeight env"
    and "length (framePixels env) = 4 * (videoWidth env * videoHeight env)"
  shows "\<exists>hm path.
           headPath (detBox d) (jawOutline (detLandmarks d)) = Inr path \<and>
           heightMap (captureImage env st) = Some hm \<and>
           (\<forall>p < videoWidth env * videoHeight env.
              (\<not> maskIsWhite (fillMask env path) (4 * p) \<longrightarrow> hm ! p = Num 0) \<and>
              (maskIsWhite (fillMask env path) (4 * p) \<longrightarrow>
                 grayAvg (framePixels env) (4 * p) =
                   Num (of_nat (rgbSum (framePixels env) (4 * p)) / 3) \<and>
                 hm ! p =
                   toFloat32 (Num (of_nat ((rgbSum (framePixels env) (4 * p) + 1) div 3) / 255)) \<and>
                 (\<exists>h. hm ! p = Num h \<and>
                    \<bar>h - of_nat ((rgbSum (framePixels env) (4 * p) + 1) div 3) / 255\<bar>
                      \<le> 1 / 2 ^ 25 \<and>
                    \<bar>h - (of_nat (rgbSum (framePixels env) (4 * p)) / 3) / 255\<bar>
                      \<le> 1 / 765 + 1 / 2 ^ 25)))"
proof -
  obtain path where path: "headPath (detBox d) (jawOutline (detLandmarks d)) = Inr path"
    using headPath_nonempty [OF assms(3)] by blast
  let ?n = "videoWidth env * videoHeight env"
  let ?mh = "maskAndHeights (fillMask env path) (framePixels env) ?n"
  have pub: "heightMap (captureImage env st) = Some (snd ?mh)"
    using captureImage_published [OF assms(1,2) path assms(4,5)] by simp
  have pixel:
    "(\<not> maskIsWhite (fillMask env path) (4 * p) \<longrightarrow> snd ?mh ! p = Num 0) \<and>
     (maskIsWhite (fillMask env path) (4 * p) \<longrightarrow>
        grayAvg (framePixels env) (4 * p) =
          Num (of_nat (rgbSum (framePixels env) (4 * p)) / 3) \<and>
        snd ?mh ! p =
          toFloat32 (Num (of_nat ((rgbSum (framePixels env) (4 * p) + 1) div 3) / 255)) \<and>
        (\<exists>h. snd ?mh ! p = Num h \<and>
           \<bar>h - of_nat ((rgbSum (framePixels env) (4 * p) + 1) div 3) / 255\<bar>
             \<le> 1 / 2 ^ 25 \<and>
           \<bar>h - (of_nat (rgbSum (framePixels env) (4 * p)) / 3) / 255\<bar>
             \<le> 1 / 765 + 1 / 2 ^ 25))"
    if pn: "p < ?n" for p
  proof -
    have "4 * p + 2 < length (framePixels env)"
      using pn assms(6) by simp
    then show ?thesis
      using pn by (rule pixel_height_rounded_gray)
  qed
  show ?thesis
    using path pub pixel by blast
qed

theorem height_is_rounded_gray_over_255_witness:
  "captureReady demoEnv demoState \<and>
   length (framePixels demoEnv) = 4 * (videoWidth demoEnv * videoHeight demoEnv) \<and>
   (\<exists>hm path.
      headPath (detBox demoDetection) (jawOutline (detLandmarks demoDetection)) = Inr path \<and>
      heightMap (captureImage demoEnv demoState) = Some hm \<and>
      maskIsWhite (fillMask demoEnv path) (4 * 0) \<and>
      grayAvg (framePixels demoEnv) (4 * 0) = Num (61 / 3) \<and>
      hm ! 0 = Num (10526881 / 134217728) \<and>
      \<not> maskIsWhite (fillMask demoEnv path) (4 * 1) \<and>
      hm ! 1 = Num 0)"
proof -
  have w: "videoWidth demoEnv = 2" and h: "videoHeight demoEnv = 1"
    and f: "framePixels demoEnv = demoFrame" and m: "fillMask demoEnv = (\<lambda>path. demoMask)"
    by (simp_all add: demoEnv_def)
  obtain hm path where
    path: "headPath (detBox demoDetection) (jawOutline (detLandmarks demoDetection)) = Inr path"
    and pub: "heightMap (captureImage demoEnv demoState) = Some hm"
    and pixel: "\<forall>p < videoWidth demoEnv * videoHeight demoEnv.
        (\<not> maskIsWhite (fillMask demoEnv path) (4 * p) \<longrightarrow> hm ! p = Num 0) \<and>
        (maskIsWhite (fillMask demoEnv path) (4 * p) \<longrightarrow>
           grayAvg (framePixels demoEnv) (4 * p) =
             Num (of_nat (rgbSum (framePixels demoEnv) (4 * p)) / 3) \<and>
           hm ! p =
             toFloat32 (Num (of_nat ((rgbSum (framePixels demoEnv) (4 * p) + 1) div 3) / 255)) \<and>
           (\<exists>h. hm ! p = Num h \<and>
              \<bar>h - of_nat ((rgbSum (framePixels demoEnv) (4 * p) + 1) div 3) / 255\<bar>
                \<le> 1 / 2 ^ 25 \<and>
              \<bar>h - (of_nat (rgbSum (framePixels demoEnv) (4 * p)) / 3) / 255\<bar>
                \<le> 1 / 765 + 1 / 2 ^ 25))"
    using height_is_rounded_gray_over_255
      [OF demo_ready demo_detected demo_jaw demo_size demo_valid]
    by blast
  have white: "maskIsWhite demoMask (4 * 0)" and gray: "\<not> maskIsWhite demoMask (4 * 1)"
    by (simp_all add: demoMask_def maskIsWhite_def)
  have first: "(0::nat) < videoWidth demoEnv * videoHeight demoEnv"
    and second: "(1::nat) < videoWidth demoEnv * videoHeight demoEnv"
    by (simp_all add: w h)
  have sum: "rgbSum demoFrame (4 * 0) = 61"
    by (simp add: rgbSum_def demoFrame_def)
  have in0: "grayAvg demoFrame (4 * 0) = Num (of_nat (rgbSum demoFrame (4 * 0)) / 3) \<and>
      hm ! 0 = toFloat32 (Num (of_nat ((rgbSum demoFrame (4 * 0) + 1) div 3) / 255))"
    using pixel [rule_format, OF first] white unfolding f m by blast
  have avg: "grayAvg demoFrame (4 * 0) = Num (61 / 3)"
    using in0 unfolding sum by simp
  have p0: "hm ! 0 = Num (10526881 / 134217728)"
    using in0 unfolding demo_byte demo_float by blast
  have p1: "hm ! 1 = Num 0"
    using pixel [rule_format, OF second] gray unfolding f m by blast
  show ?thesis
    using demo_ready demo_valid path pub white gray avg p0 p1 unfolding f m by blast
qed

text \<open>
  The claim as written asks for the luminance itself divided by 255, within floating
  rounding. A one-pixel frame with colour (1, 0, 0) under a white mask has luminance
  \<open>1 / 3\<close>, which the 8-bit channel stores as 0: the height is 0, while the luminance
  divided by 255 is \<open>1 / 765\<close>, far more than a single-precision rounding step away.
\<close>

theorem luminance_not_exact_counterexample:
  "maskIsWhite [255, 255, 255, 255] 0 \<and>
   snd (maskAndHeights [255, 255, 255, 255] [1, 0, 0, 255] 1) ! 0 = Num 0 \<and>
   jsDivLit (grayAvg [1, 0, 0, 255] 0) 255 = Num (1 / 765) \<and>
   (1 / 2 ^ 24 :: rat) < 1 / 765"
proof -
  let ?mask = "[255, 255, 255, 255] :: byte list"
  let ?data = "[1, 0, 0, 255] :: byte list"
  have white: "maskIsWhite ?mask 0"
    by (simp add: maskIsWhite_def)
  have masked: "maskLoop ?mask 0 ?data = [0, 0, 0, 255]"
    by code_simp
  have z: "of_nat (unat (maskLoop ?mask 0 ?data ! (4 * 0))) / 255 = (0 :: rat)"
    by (simp add: masked)
  have "snd (maskAndHeights ?mask ?data 1) ! 0 =
      toFloat32 (Num (of_nat (unat (maskLoop ?mask 0 ?data ! (4 * 0))) / 255))"
    using heights_nth [of 0 1 ?mask ?data] by simp
  then have height: "snd (maskAndHeights ?mask ?data 1) ! 0 = Num 0"
    unfolding z toFloat32_zero .
  have lum: "jsDivLit (grayAvg ?data 0) 255 = Num (1 / 765)"
    by code_simp
  have gap: "(1 / 2 ^ 24 :: rat) < 1 / 765"
    by simp
  show ?thesis
    using white height lum gap by blast
qed

section \<open>The published height field\<close>

text \<open>
  C2. For a valid frame of \<open>width \<times> height\<close> pixels (four bytes per pixel), a capture that
  runs to the end publishes a height field with exactly \<open>width * height\<close> entries, every
  entry is a number between 0 and 1, and the entry at index \<open>row * width + col\<close> is the red
  channel of the masked pixel at byte offset \<open>4 * (row * width + col)\<close>, divided by 255
  and stored in single precision: one scalar per pixel, in the row-major order of the
  frame.
\<close>

theorem heightfield_size_range_row_major:
  assumes "captureReady env st"
    and "detectSingleFace env = Detected d"
    and "jawOutline (detLandmarks d) \<noteq> []"
    and "0 < videoWidth env" and "0 < videoHeight env"
    and "length (framePixels env) = 4 * (videoWidth env * videoHeight env)"
  shows "\<exists>hm path.
           headPath (detBox d) (jawOutline (detLandmarks d)) = Inr path \<and>
           heightMap (captureImage env st) = Some hm \<and>
           length hm = videoWidth env * videoHeight env \<and>
           (\<forall>p < videoWidth env * videoHeight env. \<exists>q. hm ! p = Num q \<and> 0 \<le> q \<and> q \<le> 1) \<and>
           (\<forall>row < videoHeight env. \<forall>col < videoWidth env.
              hm ! (row * videoWidth env + col) =
                toFloat32
                  (Num (of_nat (unat (fst (maskAndHeights (fillMask env path) (framePixels env)
                          (videoWidth env * videoHeight env))
                        ! (4 * (row * videoWidth env + col)))) / 255)))"
proof -
  obtain path where path: "headPath (detBox d) (jawOutline (detLandmarks d)) = Inr path"
    using headPath_nonempty [OF assms(3)] by blast
  let ?n = "videoWidth env * videoHeight env"
  let ?mh = "maskAndHeights (fillMask env path) (framePixels env) ?n"
  have pub: "heightMap (captureImage env st) = Some (snd ?mh)"
    using captureImage_published [OF assms(1,2) path assms(4,5)] by simp
  have len: "length (snd ?mh) = ?n"
    by (rule heights_length)
  have range: "\<exists>q. snd ?mh ! p = Num q \<and> 0 \<le> q \<and> q \<le> 1" if pn: "p < ?n" for p
    using pn by (rule heights_entry_unit)
  have order: "snd ?mh ! (row * videoWidth env + col) =
      toFloat32 (Num (of_nat (unat (fst ?mh ! (4 * (row * videoWidth env + col)))) / 255))"
    if row: "row < videoHeight env" and col: "col < videoWidth env" for row col
  proof -
    have "row * videoWidth env + col < (row + 1) * videoWidth env"
      using col by simp
    also have "\<dots> \<le> videoHeight env * videoWidth env"
      using row by (intro mult_le_mono1) simp
    finally have p: "row * videoWidth env + col < ?n"
      by (simp add: mult.commute)
    then have "4 * (row * videoWidth env + col) < length (framePixels env)"
      using assms(6) by simp
    then show ?thesis
      using heights_nth [OF p, of "fillMask env path" "framePixels env"]
      by (simp add: fst_maskAndHeights)
  qed
  show ?thesis
    using path pub len range order by blast
qed

theorem heightfield_size_range_row_major_witness:
  "captureReady demoEnv demoState \<and>
   length (framePixels demoEnv) = 4 * (videoWidth demoEnv * videoHeight demoEnv) \<and>
   heightMap (captureImage demoEnv demoState) = Some [Num (10526881 / 134217728), Num 0] \<and>
   (\<exists>hm path.
      headPath (detBox demoDetection) (jawOutline (detLandmarks demoDetection)) = Inr path \<and>
      heightMap (captureImage demoEnv demoState) = Some hm \<and>
      length hm = 2 \<and>
      (\<exists>q. hm ! 1 = Num q \<and> 0 \<le> q \<and> q \<le> 1) \<and>
      hm ! (0 * 2 + 1) =
        toFloat32
          (Num (of_nat (unat (fst (maskAndHeights (fillMask demoEnv path) (framePixels demoEnv) 2)
                ! (4 * (0 * 2 + 1)))) / 255)))"
proof -
  have w: "videoWidth demoEnv = 2" and h: "videoHeight demoEnv = 1"
    by (simp_all add: demoEnv_def)
  obtain hm path where
    path: "headPath (detBox demoDetection) (jawOutline (detLandmarks demoDetection)) = Inr path"
    and pub: "heightMap (captureImage demoEnv demoState) = Some hm"
    and len: "length hm = videoWidth demoEnv * videoHeight demoEnv"
    and range: "\<forall>p < videoWidth demoEnv * videoHeight demoEnv.
                  \<exists>q. hm ! p = Num q \<and> 0 \<le> q \<and> q \<le> 1"
    and order: "\<forall>row < videoHeight demoEnv. \<forall>col < videoWidth demoEnv.
              hm ! (row * videoWidth demoEnv + col) =
                toFloat32
                  (Num (of_nat (unat (fst (maskAndHeights (fillMask demoEnv path)
                          (framePixels demoEnv) (videoWidth demoEnv * videoHeight demoEnv))
                        ! (4 * (row * videoWidth demoEnv + col)))) / 255))"
    using heightfield_size_range_row_major
      [OF demo_ready demo_detected demo_jaw demo_size demo_valid]
    by blast
  have r1: "\<exists>q. hm ! 1 = Num q \<and> 0 \<le> q \<and> q \<le> 1"
    using range by (simp add: w h)
  have o1: "hm ! (0 * 2 + 1) =
        toFloat32
          (Num (of_nat (unat (fst (maskAndHeights (fillMask demoEnv path) (framePixels demoEnv) 2)
                ! (4 * (0 * 2 + 1)))) / 255))"
    using order [rule_format, of 0 1] by (simp add: w h)
  have published:
    "heightMap (captureImage demoEnv demoState) = Some [Num (10526881 / 134217728), Num 0]"
    by (simp add: demo_capture)
  have len2: "length hm = 2"
    using len by (simp add: w h)
  show ?thesis
    using demo_ready demo_valid published path pub len2 r1 o1 by blast
qed

text \<open>
  C10, as the code has it. Every entry of the published height field is the
  single-precision value nearest to \<open>k / 255\<close> for an integer \<open>k\<close> between 0 and 255; it is
  a number at most \<open>1 / 2 ^ 25\<close> away from \<open>k / 255\<close>. So at most 256 different heights
  occur. For a pixel inside the mask, \<open>k\<close> is the byte that the grayscale average became
  when it was stored into the 8-bit clamped channel.
\<close>

theorem heights_are_quantized:
  assumes "captureReady env st"
    and "detectSingleFace env = Detected d"
    and "jawOutline (detLandmarks d) \<noteq> []"
    and "0 < videoWidth env" and "0 < videoHeight env"
  shows "\<exists>hm path.
           headPath (detBox d) (jawOutline (detLandmarks d)) = Inr path \<and>
           heightMap (captureImage env st) = Some hm \<and>
           (\<forall>e \<in> set hm. \<exists>k\<le>255. \<exists>r.
              e = toFloat32 (Num (of_nat k / 255)) \<and> e = Num r \<and>
              \<bar>r - of_nat k / 255\<bar> \<le> 1 / 2 ^ 25) \<and>
           card (set hm) \<le> 256 \<and>
           (\<forall>p < videoWidth env * videoHeight env.
              4 * p + 2 < length (framePixels env) \<and> maskIsWhite (fillMask env path) (4 * p) \<longrightarrow>
              hm ! p =
                toFloat32
                  (Num (of_nat (unat (toUint8Clamp (grayAvg (framePixels env) (4 * p)))) / 255)))"
proof -
  obtain path where path: "headPath (detBox d) (jawOutline (detLandmarks d)) = Inr path"
    using headPath_nonempty [OF assms(3)] by blast
  let ?n = "videoWidth env * videoHeight env"
  let ?mh = "maskAndHeights (fillMask env path) (framePixels env) ?n"
  let ?level = "\<lambda>k :: nat. toFloat32 (Num (of_nat k / 255))"
  have pub: "heightMap (captureImage env st) = Some (snd ?mh)"
    using captureImage_published [OF assms(1,2) path assms(4,5)] by simp
  have level: "\<exists>k\<le>255. e = ?level k" if mem: "e \<in> set (snd ?mh)" for e
  proof -
    obtain p where p: "p < length (snd ?mh)" and e: "e = snd ?mh ! p"
      using mem by (auto simp: in_set_conv_nth)
    have "p < ?n" using p by (simp add: heights_length)
    then show ?thesis
      unfolding e by (rule heights_entry)
  qed
  have quant: "\<exists>k\<le>255. \<exists>r. e = ?level k \<and> e = Num r \<and> \<bar>r - of_nat k / 255\<bar> \<le> 1 / 2 ^ 25"
    if mem: "e \<in> set (snd ?mh)" for e
  proof -
    obtain k where k: "k \<le> 255" and e: "e = ?level k"
      using level [OF mem] by blast
    obtain r where "?level k = Num r" and "\<bar>r - of_nat k / 255\<bar> \<le> 1 / 2 ^ 25"
      using toFloat32_byte_over_255 [OF k] by blast
    then show ?thesis using k e by auto
  qed
  have "set (snd ?mh) \<subseteq> ?level ` {..255}"
    using level by auto
  then have "card (set (snd ?mh)) \<le> card (?level ` {..255 :: nat})"
    by (intro card_mono) simp_all
  also have "\<dots> \<le> card {..255 :: nat}"
    by (rule card_image_le) simp
  finally have levels: "card (set (snd ?mh)) \<le> 256"
    by simp
  have inmask: "snd ?mh ! p =
      toFloat32 (Num (of_nat (unat (toUint8Clamp (grayAvg (framePixels env) (4 * p)))) / 255))"
    if "p < ?n" and "4 * p + 2 < length (framePixels env)"
      and "maskIsWhite (fillMask env path) (4 * p)" for p
  proof -
    have "4 * p < length (framePixels env)" using that(2) by simp
    then show ?thesis
      using heights_nth_masked [OF that(1), of "framePixels env" "fillMask env path"] that(3)
      by (simp add: maskedByte_def)
  qed
  show ?thesis
    using path pub quant levels inmask by blast
qed

theorem heights_are_quantized_witness:
  "captureReady demoEnv demoState \<and>
   heightMap (captureImage demoEnv demoState) = Some [Num (10526881 / 134217728), Num 0] \<and>
   (\<exists>hm. heightMap (captureImage demoEnv demoState) = Some hm \<and>
      (\<exists>k\<le>255. \<exists>r. hm ! 0 = toFloat32 (Num (of_nat k / 255)) \<and> hm ! 0 = Num r \<and>
         \<bar>r - of_nat k / 255\<bar> \<le> 1 / 2 ^ 25) \<and>
      card (set hm) \<le> 256 \<and>
      hm ! 0 =
        toFloat32
          (Num (of_nat (unat (toUint8Clamp (grayAvg (framePixels demoEnv) (4 * 0)))) / 255)))"
proof -
  have w: "videoWidth demoEnv = 2" and h: "videoHeight demoEnv = 1"
    and f: "framePixels demoEnv = demoFrame" and m: "fillMask demoEnv = (\<lambda>path. demoMask)"
    by (simp_all add: demoEnv_def)
  obtain hm path where
    pub: "heightMap (captureImage demoEnv demoState) = Some hm"
    and quant: "\<forall>e \<in> set hm. \<exists>k\<le>255. \<exists>r.
              e = toFloat32 (Num (of_nat k / 255)) \<and> e = Num r \<and>
              \<bar>r - of_nat k / 255\<bar> \<le> 1 / 2 ^ 25"
    and levels: "card (set hm) \<le> 256"
    and inmask: "\<forall>p < videoWidth demoEnv * videoHeight demoEnv.
              4 * p + 2 < length (framePixels demoEnv) \<and>
              maskIsWhite (fillMask demoEnv path) (4 * p) \<longrightarrow>
              hm ! p =
                toFloat32
                  (Num (of_nat (unat (toUint8Clamp (grayAvg (framePixels demoEnv) (4 * p)))) / 255))"
    using heights_are_quantized [OF demo_ready demo_detected demo_jaw demo_size]
    by blast
  have published:
    "heightMap (captureImage demoEnv demoState) = Some [Num (10526881 / 134217728), Num 0]"
    by (simp add: demo_capture)
  have hm: "hm = [Num (10526881 / 134217728), Num 0]"
    using pub published by simp
  have "hm ! 0 \<in> set hm"
    by (simp add: hm)
  then have q0: "\<exists>k\<le>255. \<exists>r. hm ! 0 = toFloat32 (Num (of_nat k / 255)) \<and> hm ! 0 = Num r \<and>
         \<bar>r - of_nat k / 255\<bar> \<le> 1 / 2 ^ 25"
    using quant by blast
  have white: "maskIsWhite demoMask (4 * 0)"
    by (simp add: demoMask_def maskIsWhite_def)
  have first: "(0::nat) < videoWidth demoEnv * videoHeight demoEnv"
    by (simp add: w h)
  have complete: "4 * 0 + 2 < length (framePixels demoEnv)"
    by (simp add: f demoFrame_def)
  have i0: "hm ! 0 =
      toFloat32
        (Num (of_nat (unat (toUint8Clamp (grayAvg (framePixels demoEnv) (4 * 0)))) / 255))"
    using inmask [rule_format, OF first] complete white unfolding m by blast
  show ?thesis
    using demo_ready published pub q0 levels i0 by blast
qed

text \<open>
  The claim as written makes every entry equal to \<open>k / 255\<close>. The demonstration frame has
  an in-mask pixel with byte 20; its published height is the single-precision value
  \<open>10526881 / 134217728\<close>, which lies strictly between \<open>20 / 255\<close> and \<open>21 / 255\<close> and so
  is no \<open>k / 255\<close>.
\<close>

theorem height_not_k_over_255_counterexample:
  "heightMap (captureImage demoEnv demoState) = Some [Num (10526881 / 134217728), Num 0] \<and>
   toUint8Clamp (grayAvg (framePixels demoEnv) 0) = 20 \<and>
   (20 / 255 :: rat) < 10526881 / 134217728 \<and>
   (10526881 / 134217728 :: rat) < 21 / 255"
proof -
  have published:
    "heightMap (captureImage demoEnv demoState) = Some [Num (10526881 / 134217728), Num 0]"
    by (simp add: demo_capture)
  have byte: "toUint8Clamp (grayAvg (framePixels demoEnv) 0) = 20"
    by code_simp
  have above: "(20 / 255 :: rat) < 10526881 / 134217728"
    and below: "(10526881 / 134217728 :: rat) < 21 / 255"
    by simp_all
  show ?thesis
    using published byte above below by blast
qed

text \<open>
  C8. A capture that runs to the end publishes the new height field and the data URL of
  the masked snapshot, and empties the error slot, whatever the slot held before.
\<close>

theorem successful_capture_publishes_and_clears_error:
  assumes "captureReady env st"
    and "detectSingleFace env = Detected d"
    and "jawOutline (detLandmarks d) \<noteq> []"
    and "0 < videoWidth env" and "0 < videoHeight env"
  shows "\<exists>path.
           headPath (detBox d) (jawOutline (detLandmarks d)) = Inr path \<and>
           heightMap (captureImage env st) =
             Some (snd (maskAndHeights (fillMask env path) (framePixels env)
                     (videoWidth env * videoHeight env))) \<and>
           imageData (captureImage env st) =
             Some (toDataURL env (fst (maskAndHeights (fillMask env path) (framePixels env)
                     (videoWidth env * videoHeight env)))) \<and>
           error (captureImage env st) = None \<and>
           modelsLoaded (captureImage env st) = modelsLoaded st"
proof -
  obtain path where path: "headPath (detBox d) (jawOutline (detLandmarks d)) = Inr path"
    using headPath_nonempty [OF assms(3)] by blast
  show ?thesis
    using path captureImage_published [OF assms(1,2) path assms(4,5)] by simp
qed

theorem successful_capture_publishes_and_clears_error_witness:
  "captureReady demoEnv demoState \<and>
   error demoState = Some msgNoFace \<and>
   heightMap (captureImage demoEnv demoState) = Some [Num (10526881 / 134217728), Num 0] \<and>
   imageData (captureImage demoEnv demoState) = Some ''data:image/png'' \<and>
   error (captureImage demoEnv demoState) = None"
proof -
  have before: "error demoState = Some msgNoFace"
    by (simp add: demoState_def)
  have url: "toDataURL demoEnv = (\<lambda>pixels. ''data:image/png'')"
    by (simp add: demoEnv_def)
  have published:
    "heightMap (captureImage demoEnv demoState) = Some [Num (10526881 / 134217728), Num 0]"
    by (simp add: demo_capture)
  show ?thesis
    using successful_capture_publishes_and_clears_error
        [OF demo_ready demo_detected demo_jaw demo_size]
      demo_ready before published url
    by auto
qed

section \<open>Aborted captures\<close>

text \<open>
  C7. When capture is triggered while the models are not loaded, nothing is published:
  the height field and the image stay as they were, so a height field that was unset
  stays unset. With the three refs attached, as they are whenever the mounted component
  shows its button, the only change is the error slot, which receives the "still loading"
  notice.
\<close>

theorem capture_refused_while_loading:
  assumes "\<not> modelsLoaded st"
    and "videoRef env" and "canvasRef env" and "faceCanvasRef env"
  shows "captureImage env st = st\<lparr>error := Some msgStillLoading\<rparr> \<and>
         error (captureImage env st) = Some msgStillLoading \<and>
         heightMap (captureImage env st) = heightMap st \<and>
         imageData (captureImage env st) = imageData st"
  using assms by (simp add: captureImage_def)

theorem capture_refused_while_loading_witness:
  "\<not> modelsLoaded initialState \<and> videoRef demoEnv \<and> canvasRef demoEnv \<and> faceCanvasRef demoEnv \<and>
   error (captureImage demoEnv initialState) =
     Some ''Face detection models are still loading. Please wait.'' \<and>
   heightMap (captureImage demoEnv initialState) = None \<and>
   imageData (captureImage demoEnv initialState) = None"
proof -
  have loading: "\<not> modelsLoaded initialState"
    by (simp add: initialState_def)
  have refs: "videoRef demoEnv" "canvasRef demoEnv" "faceCanvasRef demoEnv"
    by (simp_all add: demoEnv_def)
  have unset: "heightMap initialState = None" "imageData initialState = None"
    by (simp_all add: initialState_def)
  show ?thesis
    using capture_refused_while_loading [OF loading refs] loading refs unset
    by (simp add: msgStillLoading_def)
qed

text \<open>
  C4, as the code has it. When the detector returns no result, the capture shows the
  "no face detected" message. When the detector throws, the exception reaches the
  \<^verbatim>\<open>catch\<close> of line 208 and the capture shows the generic capture-error message. In both
  cases the height field and the image stay as they were.
\<close>

theorem detection_failure_messages:
  assumes "captureReady env st"
  shows "(detectSingleFace env = NoDetection \<longrightarrow>
            error (captureImage env st) = Some msgNoFace) \<and>
         (detectSingleFace env = DetectThrows \<longrightarrow>
            error (captureImage env st) = Some msgCaptureError) \<and>
         (detectSingleFace env = NoDetection \<or> detectSingleFace env = DetectThrows \<longrightarrow>
            heightMap (captureImage env st) = heightMap st \<and>
            imageData (captureImage env st) = imageData st \<and>
            modelsLoaded (captureImage env st) = modelsLoaded st)"
proof -
  have none: "captureImage env st = st\<lparr>error := Some msgNoFace\<rparr>"
    if "detectSingleFace env = NoDetection"
    using captureImage_ready [OF assms] tryBlock_no_detection [OF that] by simp
  have throws: "captureImage env st = st\<lparr>error := Some msgCaptureError\<rparr>"
    if "detectSingleFace env = DetectThrows"
    using captureImage_ready [OF assms] tryBlock_detection_throws [OF that] by simp
  show ?thesis
    using none throws by auto
qed

theorem detection_failure_messages_witness:
  "captureReady noFaceEnv loadedState \<and> detectSingleFace noFaceEnv = NoDetection \<and>
   error (captureImage noFaceEnv loadedState) =
     Some ''No face detected. Please ensure your face is visible in the camera.'' \<and>
   heightMap (captureImage noFaceEnv loadedState) = None \<and>
   captureReady throwingEnv loadedState \<and> detectSingleFace throwingEnv = DetectThrows \<and>
   error (captureImage throwingEnv loadedState) =
     Some ''An error occurred during image capture. Please check the console for details.'' \<and>
   heightMap (captureImage throwingEnv loadedState) = None"
proof -
  have d1: "detectSingleFace noFaceEnv = NoDetection"
    and d2: "detectSingleFace throwingEnv = DetectThrows"
    by (simp_all add: noFaceEnv_def throwingEnv_def)
  have unset: "heightMap loadedState = None"
    by (simp add: loadedState_def)
  show ?thesis
    using detection_failure_messages [OF demo_envs_ready(1)]
      detection_failure_messages [OF demo_envs_ready(2)]
      demo_envs_ready d1 d2 unset
    by (simp add: msgNoFace_def msgCaptureError_def)
qed

text \<open>
  The claim as written expects the "no face detected" message also when detection throws.
  With a throwing detector and no earlier error, the error slot ends with the generic
  capture-error message.
\<close>

theorem detection_throw_counterexample:
  "captureReady throwingEnv loadedState \<and>
   detectSingleFace throwingEnv = DetectThrows \<and>
   error (captureImage throwingEnv loadedState) = Some msgCaptureError \<and>
   error (captureImage throwingEnv loadedState) \<noteq> Some msgNoFace"
  by code_simp

text \<open>
  C3, as the code has it. When the detector returns no result, the capture aborts with the
  "no face detected" message. When it returns a detection whose jaw outline is empty (as
  with zero landmarks, the outline being a selection of the landmark positions), reading
  the last jaw point throws a TypeError before anything is filled, and the capture aborts
  with the generic capture-error message. In both cases no mask is rasterised and nothing
  is published.
\<close>

theorem no_detection_or_empty_jaw_aborts:
  assumes "captureReady env st"
  shows "(detectSingleFace env = NoDetection \<longrightarrow>
            tryBlock env = Inl ReturnNoFace \<and>
            captureImage env st = st\<lparr>error := Some msgNoFace\<rparr>) \<and>
         (\<forall>d. detectSingleFace env = Detected d \<and> jawOutline (detLandmarks d) = [] \<longrightarrow>
            tryBlock env = Inl (Caught TypeError) \<and>
            captureImage env st = st\<lparr>error := Some msgCaptureError\<rparr>) \<and>
         (\<forall>d. detectSingleFace env = Detected d \<and> positions (detLandmarks d) = [] \<and>
              set (jawOutline (detLandmarks d)) \<subseteq> set (positions (detLandmarks d)) \<longrightarrow>
            tryBlock env = Inl (Caught TypeError) \<and>
            captureImage env st = st\<lparr>error := Some msgCaptureError\<rparr>)"
proof -
  have none: "tryBlock env = Inl ReturnNoFace \<and> captureImage env st = st\<lparr>error := Some msgNoFace\<rparr>"
    if "detectSingleFace env = NoDetection"
    using captureImage_ready [OF assms] tryBlock_no_detection [OF that] by simp
  have empty: "tryBlock env = Inl (Caught TypeError) \<and>
      captureImage env st = st\<lparr>error := Some msgCaptureError\<rparr>"
    if "detectSingleFace env = Detected d" and "jawOutline (detLandmarks d) = []" for d
    using captureImage_ready [OF assms] tryBlock_empty_jaw [OF that] by simp
  show ?thesis
    using none empty by auto
qed

theorem no_detection_or_empty_jaw_aborts_witness:
  "captureReady noFaceEnv loadedState \<and> detectSingleFace noFaceEnv = NoDetection \<and>
   captureImage noFaceEnv loadedState = loadedState\<lparr>error := Some msgNoFace\<rparr> \<and>
   captureReady noLandmarksEnv loadedState \<and>
   detectSingleFace noLandmarksEnv = Detected noLandmarks \<and>
   positions (detLandmarks noLandmarks) = [] \<and>
   jawOutline (detLandmarks noLandmarks) = [] \<and>
   tryBlock noLandmarksEnv = Inl (Caught TypeError) \<and>
   captureImage noLandmarksEnv loadedState = loadedState\<lparr>error := Some msgCaptureError\<rparr>"
proof -
  have d1: "detectSingleFace noFaceEnv = NoDetection"
    and d2: "detectSingleFace noLandmarksEnv = Detected noLandmarks"
    by (simp_all add: noFaceEnv_def noLandmarksEnv_def)
  have l: "positions (detLandmarks noLandmarks) = []" "jawOutline (detLandmarks noLandmarks) = []"
    by (simp_all add: noLandmarks_def)
  show ?thesis
    using no_detection_or_empty_jaw_aborts [OF demo_envs_ready(1)]
      no_detection_or_empty_jaw_aborts [OF demo_envs_ready(3)]
      demo_envs_ready d1 d2 l
    by simp
qed

text \<open>
  The claim as written expects the "no face detected" message for a detection without
  landmarks. With such a detection and no earlier error, the error slot ends with the
  generic capture-error message.
\<close>

theorem empty_jaw_counterexample:
  "captureReady noLandmarksEnv loadedState \<and>
   detectSingleFace noLandmarksEnv = Detected noLandmarks \<and>
   positions (detLandmarks noLandmarks) = [] \<and>
   jawOutline (detLandmarks noLandmarks) = [] \<and>
   error (captureImage noLandmarksEnv loadedState) = Some msgCaptureError \<and>
   error (captureImage noLandmarksEnv loadedState) \<noteq> Some msgNoFace"
  by code_simp

section \<open>Vertex depths\<close>

text \<open>
  C5. For every height field and every grid vertex at \<open>(row, col)\<close> with \<open>col < width\<close>,
  the effect of the mesh component, run on an attached geometry, sets the z coordinate of vertex number \<open>row * width + col\<close> to twice the
  height field entry at that index. When the index is outside the array, or the entry is
  NaN, the z coordinate is 0. The loop has no failing branch: it returns a vertex array of
  the same length, and no depth it writes is NaN.
\<close>

theorem vertex_depth_is_twice_height_or_zero:
  assumes "col < width"
    and "3 * (row * width + col) + 2 < length vertices"
  shows "updateVertices hmap width 0 vertices ! (3 * (row * width + col) + 2) =
           (if row * width + col < length hmap \<and> hmap ! (row * width + col) \<noteq> NaN
            then jsMulLit (hmap ! (row * width + col)) 2
            else Num 0) \<and>
         updateVertices hmap width 0 vertices ! (3 * (row * width + col) + 2) \<noteq> NaN \<and>
         length (updateVertices hmap width 0 vertices) = length vertices \<and>
         heightMapMeshEffect hmap width (Some vertices) =
           Some (updateVertices hmap width 0 vertices)"
proof -
  have run: "heightMapMeshEffect hmap width (Some vertices) =
      Some (updateVertices hmap width 0 vertices)"
    by (simp add: heightMapMeshEffect_def)
  have z: "updateVertices hmap width 0 vertices ! (3 * (row * width + col) + 2) =
      vertexDepth hmap width (3 * (row * width + col))"
    using updateVertices_z [of 0 "row * width + col" vertices hmap width] assms(2) by simp
  show ?thesis
    unfolding z
    by (intro conjI vertexDepth_row_col [OF assms(1)] vertexDepth_not_NaN length_updateVertices
        run)
qed

theorem vertex_depth_is_twice_height_or_zero_witness:
  "updateVertices demoHeights 2 0 demoVertices ! (3 * (0 * 2 + 0) + 2) = Num 1 \<and>
   updateVertices demoHeights 2 0 demoVertices ! (3 * (0 * 2 + 1) + 2) = Num 0 \<and>
   updateVertices demoHeights 2 0 demoVertices ! (3 * (1 * 2 + 0) + 2) = Num (40 / 255) \<and>
   updateVertices demoHeights 2 0 demoVertices ! (3 * (1 * 2 + 1) + 2) = Num 0 \<and>
   length (updateVertices demoHeights 2 0 demoVertices) = 12"
proof -
  have c0: "(0::nat) < 2" and c1: "(1::nat) < 2"
    by simp_all
  have len: "length demoVertices = 12"
    by (simp add: demoVertices_def)
  have v0: "3 * (0 * 2 + 0) + 2 < length demoVertices"
    and v1: "3 * (0 * 2 + 1) + 2 < length demoVertices"
    and v2: "3 * (1 * 2 + 0) + 2 < length demoVertices"
    and v3: "3 * (1 * 2 + 1) + 2 < length demoVertices"
    by (simp_all add: len)
  show ?thesis
    using vertex_depth_is_twice_height_or_zero [OF c0 v0, of demoHeights]
      vertex_depth_is_twice_height_or_zero [OF c1 v1, of demoHeights]
      vertex_depth_is_twice_height_or_zero [OF c0 v2, of demoHeights]
      vertex_depth_is_twice_height_or_zero [OF c1 v3, of demoHeights]
      len
    by (simp add: demoHeights_def)
qed

end
